theory Spec2Isabelle
  imports Complex_Main "HOL-Library.Multiset"
begin

section \<open>Spot price dashboard: the data model\<close>

text \<open>
  The program \<^verbatim>\<open>spot_price_app.py\<close> loads a table of day-ahead prices into a pandas
  dataframe \<^verbatim>\<open>df\<close> and serves two queries on it, \<^verbatim>\<open>plot_price(day, area, data)\<close> and
  \<^verbatim>\<open>update_table(day, area, data)\<close>.

  A timestamp is an instant of pandas' \<^verbatim>\<open>datetime64[ns]\<close>: the number of nanoseconds since
  1970-01-01 00:00 UTC, an \<open>int\<close>. pandas stores it in 64 bits, so a timestamp lies between
  \<open>Timestamp_min\<close> and \<open>Timestamp_max\<close>, and an addition that leaves this range raises
  OutOfBoundsDatetime. The missing timestamp \<^verbatim>\<open>NaT\<close> is not a value of this
  type; where the code can produce one (the minimum of an empty index) the model uses
  \<open>int option\<close> with \<open>None\<close> for \<^verbatim>\<open>NaT\<close>. A price is a \<^verbatim>\<open>float64\<close> that the code only
  ever copies, modelled as a \<open>real\<close>; a missing price in a reindexed frame is \<open>None\<close>.
  The rows of the loaded table have no missing timestamp and no missing price.
  The columns that neither function reads (ResolutionCode, AreaCode, AreaTypeCode,
  AreaName, Currency, UpdateTime) are left out of the row.
\<close>

type_synonym timestamp = int

definition Timedelta_minutes :: "int \<Rightarrow> int" where
  \<comment> \<open>\<^verbatim>\<open>pd.Timedelta(minutes = n)\<close> in nanoseconds\<close>
  "Timedelta_minutes n = n * 60000000000"

definition Timestamp_max :: timestamp where
  \<comment> \<open>\<^verbatim>\<open>pd.Timestamp.max\<close>, 2262-04-11 23:47:16.854775807\<close>
  "Timestamp_max = 9223372036854775807"

definition Timestamp_min :: timestamp where
  \<comment> \<open>\<^verbatim>\<open>pd.Timestamp.min\<close>, 1677-09-21 00:12:43.145224193\<close>
  "Timestamp_min = - 9223372036854775807"

definition in_bounds :: "int \<Rightarrow> bool" where
  "in_bounds t \<longleftrightarrow> Timestamp_min \<le> t \<and> t \<le> Timestamp_max"

definition ns_per_hour :: int where
  "ns_per_hour = 3600000000000"

definition ns_per_day :: int where
  "ns_per_day = 86400000000000"

record row =
  DateTime :: timestamp
  MapCode :: string
  Price :: real

record obs = row +
  Day :: string

datatype error =
    NaT_bound \<comment> \<open>ValueError of \<^verbatim>\<open>pd.date_range\<close>: neither start nor end can be NaT\<close>
  | Duplicate_labels \<comment> \<open>ValueError of \<^verbatim>\<open>reindex\<close>: the index has duplicate labels\<close>
  | OutOfBoundsDatetime \<comment> \<open>a timestamp plus a Timedelta leaves the 64-bit range\<close>

subsection \<open>Loading: lines 115 to 121\<close>

text \<open>
  \<^verbatim>\<open>df['Day'] = df['DateTime'].dt.date.astype(str)\<close> writes the calendar date of the
  timestamp as \<^verbatim>\<open>YYYY-MM-DD\<close>. The date of a day number is computed with the usual
  era-based conversion of the proleptic Gregorian calendar (years of four digits, which
  is all a pandas timestamp can hold).
\<close>

definition digit_char :: "int \<Rightarrow> char" where
  "digit_char d = ''0123456789'' ! nat (d mod 10)"

definition two_digits :: "int \<Rightarrow> string" where
  "two_digits n = [digit_char (n div 10), digit_char n]"

definition four_digits :: "int \<Rightarrow> string" where
  "four_digits n = [digit_char (n div 1000), digit_char (n div 100), digit_char (n div 10), digit_char n]"

definition civil_from_days :: "int \<Rightarrow> int \<times> int \<times> int" where
  "civil_from_days z0 =
     (let z = z0 + 719468;
          era = z div 146097;
          doe = z mod 146097;
          yoe = (doe - doe div 1460 + doe div 36524 - doe div 146096) div 365;
          doy = doe - (365 * yoe + yoe div 4 - yoe div 100);
          mp = (5 * doy + 2) div 153;
          d = doy - (153 * mp + 2) div 5 + 1;
          m = (if mp < 10 then mp + 3 else mp - 9);
          y = yoe + era * 400 + (if m \<le> 2 then 1 else 0)
      in (y, m, d))"

definition date_str :: "timestamp \<Rightarrow> string" where
  "date_str t =
     (case civil_from_days (t div ns_per_day) of
        (y, m, d) \<Rightarrow> four_digits y @ ''-'' @ two_digits m @ ''-'' @ two_digits d)"

definition norwegian_zones :: "string list" where
  "norwegian_zones = [''NO1'', ''NO2'', ''NO3'', ''NO4'', ''NO5'']"

definition add_Day :: "row \<Rightarrow> obs" where
  "add_Day r = \<lparr>DateTime = DateTime r, MapCode = MapCode r, Price = Price r,
                Day = date_str (DateTime r)\<rparr>"

definition load_df :: "row list \<Rightarrow> obs list" where
  \<comment> \<open>keep the Norwegian bidding zones, then add the Day column\<close>
  "load_df raw = map add_Day (filter (\<lambda>r. MapCode r \<in> set norwegian_zones) raw)"

subsection \<open>The pandas operations the two functions call\<close>

definition selection :: "string \<Rightarrow> string \<Rightarrow> obs list \<Rightarrow> obs list" where
  \<comment> \<open>\<^verbatim>\<open>data[(data['MapCode'] == area) & (data['Day'] == day)]\<close>\<close>
  "selection day area data = filter (\<lambda>r. MapCode r = area \<and> Day r = day) data"

text \<open>
  \<^verbatim>\<open>sort_values('DateTime')\<close> orders the rows by timestamp with the sorting algorithm
  of its \<^verbatim>\<open>kind\<close> argument, by default \<^verbatim>\<open>'quicksort'\<close>, which is not stable: the order
  it leaves among rows of equal timestamp is not documented. The algorithm is therefore
  a parameter \<open>kind\<close> of the model, and all that is used of it is \<open>ascending_sort kind\<close>:
  its result holds the same rows, in ascending order of DateTime. Insertion sort is one
  such algorithm; the examples are evaluated with it. The result of \<^verbatim>\<open>plot_price\<close> is
  the same for every such algorithm (\<open>plot_price_any_sorter\<close> below), and so are the
  labels of \<^verbatim>\<open>update_table\<close>; only the order of the prices of rows with equal timestamp
  in the table depends on it.
\<close>

type_synonym sorter = "obs list \<Rightarrow> obs list"

definition ascending_sort :: "sorter \<Rightarrow> bool" where
  "ascending_sort kind \<longleftrightarrow>
     (\<forall>rows. mset (kind rows) = mset rows \<and> sorted (map DateTime (kind rows)))"

definition insertion_sort :: sorter where
  "insertion_sort rows = sort_key DateTime rows"

definition sort_values :: "sorter \<Rightarrow> obs list \<Rightarrow> obs list" where
  "sort_values kind rows = kind rows"

fun index_min :: "timestamp list \<Rightarrow> timestamp option" where
  "index_min [] = None"
| "index_min (t # ts) = Some (fold min ts t)"

fun index_max :: "timestamp list \<Rightarrow> timestamp option" where
  "index_max [] = None"
| "index_max (t # ts) = Some (fold max ts t)"

definition plus_Timedelta :: "timestamp option \<Rightarrow> int \<Rightarrow> error + timestamp option" where
  \<comment> \<open>adding a Timedelta to NaT gives NaT; a sum outside the 64-bit range raises\<close>
  "plus_Timedelta t d =
     (case t of
        None \<Rightarrow> Inr None
      | Some x \<Rightarrow> if in_bounds (x + d) then Inr (Some (x + d)) else Inl OutOfBoundsDatetime)"

definition date_range :: "timestamp \<Rightarrow> timestamp \<Rightarrow> int \<Rightarrow> timestamp list" where
  \<comment> \<open>the instants \<open>start + k * freq\<close> that are not after \<open>stop\<close>, both ends included\<close>
  "date_range start stop freq =
     (if stop < start then []
      else map (\<lambda>k. start + int k * freq) [0 ..< Suc (nat ((stop - start) div freq))])"

definition pd_date_range :: "timestamp option \<Rightarrow> timestamp option \<Rightarrow> int \<Rightarrow> error + timestamp list" where
  "pd_date_range start stop freq =
     (case start of
        None \<Rightarrow> Inl NaT_bound
      | Some s \<Rightarrow> (case stop of None \<Rightarrow> Inl NaT_bound | Some e \<Rightarrow> Inr (date_range s e freq)))"

definition last_option :: "'a list \<Rightarrow> 'a option" where
  "last_option xs = (if xs = [] then None else Some (last xs))"

text \<open>
  \<^verbatim>\<open>reindex(t_index, method = 'ffill')\<close> gives every label of the new index the row of
  the last label of the old index that is not after it, and no row (NaN in every column)
  when there is none. It needs an index without duplicates and raises a ValueError
  otherwise. The code calls it on the index that \<^verbatim>\<open>sort_values\<close> has put in ascending
  order, where that last label is found by walking the index from its start.
\<close>

definition pad :: "obs list \<Rightarrow> timestamp \<Rightarrow> obs option" where
  \<comment> \<open>forward fill on an ascending index: the last row whose label is not after \<open>t\<close>\<close>
  "pad rows t = last_option (takeWhile (\<lambda>r. DateTime r \<le> t) rows)"

definition reindex_ffill :: "obs list \<Rightarrow> timestamp list \<Rightarrow> error + (timestamp \<times> obs option) list" where
  \<comment> \<open>\<^verbatim>\<open>subset.reindex(t_index, method = 'ffill')\<close> on a frame indexed by DateTime\<close>
  "reindex_ffill rows t_index =
     (if distinct (map DateTime rows) then Inr (map (\<lambda>t. (t, pad rows t)) t_index)
      else Inl Duplicate_labels)"

definition px_line :: "(timestamp \<times> obs option) list \<Rightarrow> (timestamp \<times> real option) list" where
  \<comment> \<open>the trace of \<^verbatim>\<open>px.line(subset, y = 'Price')\<close>: x is the index, y the Price column\<close>
  "px_line frame = map (\<lambda>(t, r). (t, map_option Price r)) frame"

section \<open>plot\_price\<close>

text \<open>
  Line 143 evaluates its arguments before it calls \<^verbatim>\<open>pd.date_range\<close>: first
  \<^verbatim>\<open>subset.index.min()\<close>, then \<^verbatim>\<open>subset.index.max() + pd.Timedelta(minutes = 59)\<close>, which
  raises when the sum is out of bounds, and then the call, which raises on NaT.
\<close>

definition target_grid :: "obs list \<Rightarrow> error + timestamp list" where
  \<comment> \<open>line 143: \<^verbatim>\<open>t_index\<close>\<close>
  "target_grid sub =
     (let index = map DateTime sub;
          start = index_min index
      in case plus_Timedelta (index_max index) (Timedelta_minutes 59) of
           Inl e \<Rightarrow> Inl e
         | Inr stop \<Rightarrow> pd_date_range start stop (Timedelta_minutes 15))"

definition resample :: "sorter \<Rightarrow> obs list \<Rightarrow> error + (timestamp \<times> obs option) list" where
  \<comment> \<open>lines 139 to 144\<close>
  "resample kind sub0 =
     (let sub = sort_values kind sub0
      in case target_grid sub of
           Inl e \<Rightarrow> Inl e
         | Inr t_index \<Rightarrow> reindex_ffill sub t_index)"

definition plot_price ::
  "sorter \<Rightarrow> string \<Rightarrow> string \<Rightarrow> obs list \<Rightarrow> error + (timestamp \<times> real option) list" where
  "plot_price kind day area data =
     (case resample kind (selection day area data) of
        Inl e \<Rightarrow> Inl e
      | Inr sub \<Rightarrow> Inr (px_line sub))"

section \<open>update\_table\<close>

text \<open>
  \<^verbatim>\<open>update_table\<close> raises nowhere. After \<^verbatim>\<open>reset_index().rename(...)\<close> the DateTime
  column is replaced by its \<^verbatim>\<open>'%H:%M'\<close> text, \<^verbatim>\<open>temp\<close> is that column shifted up by one
  row, \<^verbatim>\<open>fillna('00:00')\<close> fills the cell the shift left empty (the rows of the model
  have no other missing cell), and MTU joins the two columns. The table keeps the columns
  MTU and Day-ahead price.
\<close>

definition strftime_HM :: "timestamp \<Rightarrow> string" where
  \<comment> \<open>\<^verbatim>\<open>strftime('%H:%M')\<close>\<close>
  "strftime_HM t =
     two_digits ((t mod ns_per_day) div ns_per_hour) @ '':'' @
     two_digits ((t mod ns_per_hour) div Timedelta_minutes 1)"

definition shift_back :: "'a list \<Rightarrow> 'a option list" where
  \<comment> \<open>\<^verbatim>\<open>shift(-1)\<close>: every entry takes the value of the next one, the last is missing\<close>
  "shift_back xs = map Some (tl xs) @ (if xs = [] then [] else [None])"

definition fillna :: "'a \<Rightarrow> 'a option \<Rightarrow> 'a" where
  "fillna v x = (case x of None \<Rightarrow> v | Some y \<Rightarrow> y)"

definition mtu_table :: "obs list \<Rightarrow> (string \<times> real) list" where
  \<comment> \<open>lines 266 to 277, on the new frame that \<^verbatim>\<open>reset_index().rename(...)\<close> returns\<close>
  "mtu_table sub =
     (let times = map (\<lambda>r. strftime_HM (DateTime r)) sub;
          temp = map (fillna ''00:00'') (shift_back times);
          MTU = map2 (\<lambda>t u. t @ '' - '' @ u) times temp
      in zip MTU (map Price sub))"

definition update_table ::
  "sorter \<Rightarrow> string \<Rightarrow> string \<Rightarrow> obs list \<Rightarrow> (string \<times> real) list" where
  "update_table kind day area data = mtu_table (sort_values kind (selection day area data))"

section \<open>The two functions on an explicit store\<close>

text \<open>
  Both functions work on objects: \<^verbatim>\<open>data[mask]\<close> and \<^verbatim>\<open>.copy()\<close> each create a new
  dataframe, \<^verbatim>\<open>sort_values(..., inplace = True)\<close> and \<^verbatim>\<open>set_index(..., inplace = True)\<close>
  change the dataframe they are called on. The store is the list of the dataframes that
  exist, an address is a position in it, and a new object is appended. \<^verbatim>\<open>reindex\<close>,
  \<^verbatim>\<open>reset_index\<close> and \<^verbatim>\<open>rename\<close> return new objects that nothing else refers to; they
  are values of the model, not cells of the store.
\<close>

record frame =
  frame_index :: "string option"  \<comment> \<open>the column that is the index, \<open>None\<close> for row numbers\<close>
  frame_rows :: "obs list"

type_synonym store = "frame list"

definition new_object :: "frame \<Rightarrow> store \<Rightarrow> nat \<times> store" where
  "new_object f s = (length s, s @ [f])"

definition getitem_mask :: "(obs \<Rightarrow> bool) \<Rightarrow> nat \<Rightarrow> store \<Rightarrow> nat \<times> store" where
  "getitem_mask keep a s =
     new_object ((s ! a)\<lparr>frame_rows := filter keep (frame_rows (s ! a))\<rparr>) s"

definition copy_frame :: "nat \<Rightarrow> store \<Rightarrow> nat \<times> store" where
  "copy_frame a s = new_object (s ! a) s"

definition sort_values_inplace :: "sorter \<Rightarrow> nat \<Rightarrow> store \<Rightarrow> store" where
  "sort_values_inplace kind a s =
     s[a := (s ! a)\<lparr>frame_rows := sort_values kind (frame_rows (s ! a))\<rparr>]"

definition set_index_inplace :: "nat \<Rightarrow> store \<Rightarrow> store" where
  "set_index_inplace a s = s[a := (s ! a)\<lparr>frame_index := Some ''DateTime''\<rparr>]"

definition plot_price_st ::
  "sorter \<Rightarrow> string \<Rightarrow> string \<Rightarrow> nat \<Rightarrow> store \<Rightarrow>
     (error + (timestamp \<times> real option) list) \<times> store" where
  "plot_price_st kind day area data s0 =
     (let (tmp, s1) = getitem_mask (\<lambda>r. MapCode r = area \<and> Day r = day) data s0;
          (sub, s2) = copy_frame tmp s1;
          s3 = sort_values_inplace kind sub s2;
          s4 = set_index_inplace sub s3
      in case target_grid (frame_rows (s4 ! sub)) of
           Inl e \<Rightarrow> (Inl e, s4)
         | Inr t_index \<Rightarrow>
             (case reindex_ffill (frame_rows (s4 ! sub)) t_index of
                Inl e \<Rightarrow> (Inl e, s4)
              | Inr resampled \<Rightarrow> (Inr (px_line resampled), s4)))"

definition update_table_st ::
  "sorter \<Rightarrow> string \<Rightarrow> string \<Rightarrow> nat \<Rightarrow> store \<Rightarrow> (string \<times> real) list \<times> store" where
  "update_table_st kind day area data s0 =
     (let (tmp, s1) = getitem_mask (\<lambda>r. MapCode r = area \<and> Day r = day) data s0;
          (sub, s2) = copy_frame tmp s1;
          s3 = sort_values_inplace kind sub s2
      in (mtu_table (frame_rows (s3 ! sub)), s3))"

section \<open>The grid as the specification words it, and example datasets\<close>

definition spec_day_grid :: "timestamp \<Rightarrow> timestamp list" where
  \<comment> \<open>the specification's grid: 96 slots of 15 minutes from 00:00 of the day of \<open>t\<close>\<close>
  "spec_day_grid t =
     map (\<lambda>k. (t - t mod ns_per_day) + int k * Timedelta_minutes 15) [0 ..< 96]"

definition single_obs_df :: "obs list" where
  \<comment> \<open>one observation, NO3 at 2023-01-15 00:00, price 50.2\<close>
  "single_obs_df =
     load_df [\<lparr>DateTime = 1673740800000000000, MapCode = ''NO3'', Price = 50.2\<rparr>]"

definition single_match_df :: "obs list" where
  \<comment> \<open>that observation among others: NO1 at the same time, NO3 a day later, DE dropped\<close>
  "single_match_df =
     load_df
       [\<lparr>DateTime = 1673740800000000000, MapCode = ''NO1'', Price = 10\<rparr>,
        \<lparr>DateTime = 1673827200000000000, MapCode = ''NO3'', Price = 60\<rparr>,
        \<lparr>DateTime = 1673740800000000000, MapCode = ''NO3'', Price = 50.2\<rparr>,
        \<lparr>DateTime = 1673740800000000000, MapCode = ''DE'', Price = 70\<rparr>]"

definition duplicate_df :: "obs list" where
  \<comment> \<open>two observations of NO1 with the same timestamp, 2023-01-01 00:00\<close>
  "duplicate_df =
     load_df
       [\<lparr>DateTime = 1672531200000000000, MapCode = ''NO1'', Price = 10\<rparr>,
        \<lparr>DateTime = 1672531200000000000, MapCode = ''NO1'', Price = 11\<rparr>]"

definition late_start_df :: "obs list" where
  \<comment> \<open>one observation, NO3 at 2023-01-15 05:00\<close>
  "late_start_df =
     load_df [\<lparr>DateTime = 1673758800000000000, MapCode = ''NO3'', Price = 50.2\<rparr>]"

definition sample_df :: "obs list" where
  \<comment> \<open>NO1 at 01:00 and at 00:00 of 2023-01-01, NO2 and SE1 at 00:00, NO1 a day later\<close>
  "sample_df =
     load_df
       [\<lparr>DateTime = 1672534800000000000, MapCode = ''NO1'', Price = 20\<rparr>,
        \<lparr>DateTime = 1672531200000000000, MapCode = ''NO1'', Price = 10\<rparr>,
        \<lparr>DateTime = 1672531200000000000, MapCode = ''NO2'', Price = 30\<rparr>,
        \<lparr>DateTime = 1672531200000000000, MapCode = ''SE1'', Price = 40\<rparr>,
        \<lparr>DateTime = 1672617600000000000, MapCode = ''NO1'', Price = 50\<rparr>]"

definition quarter_hour_df :: "obs list" where
  \<comment> \<open>NO3 on 2023-01-15, one observation every 15 minutes from 00:00 to 23:45\<close>
  "quarter_hour_df =
     load_df (map (\<lambda>k. \<lparr>DateTime = 1673740800000000000 + int k * Timedelta_minutes 15,
                          MapCode = ''NO3'', Price = real k\<rparr>) [0 ..< 96])"

lemma index_min_Min: "xs \<noteq> [] \<Longrightarrow> index_min xs = Some (Min (set xs))"
  by (cases xs) (simp_all add: Min.set_eq_fold[symmetric])

lemma index_max_Max: "xs \<noteq> [] \<Longrightarrow> index_max xs = Some (Max (set xs))"
  by (cases xs) (simp_all add: Max.set_eq_fold[symmetric])

lemma index_min_Some_iff: "index_min xs = Some m \<longleftrightarrow> xs \<noteq> [] \<and> m = Min (set xs)"
  by (cases xs) (auto simp: Min.set_eq_fold[symmetric])

lemma index_max_Some_iff: "index_max xs = Some m \<longleftrightarrow> xs \<noteq> [] \<and> m = Max (set xs)"
  by (cases xs) (auto simp: Max.set_eq_fold[symmetric])

lemma index_min_le_max:
  assumes "index_min xs = Some a" and "index_max xs = Some b"
  shows "a \<le> b"
proof -
  from assms have ne: "xs \<noteq> []" and a: "a = Min (set xs)" and b: "b = Max (set xs)"
    by (simp_all add: index_min_Some_iff index_max_Some_iff)
  from ne have "hd xs \<in> set xs" by simp
  then have "Min (set xs) \<le> hd xs" and "hd xs \<le> Max (set xs)" by simp_all
  with a b show ?thesis by linarith
qed

lemma ascending_insertion_sort: "ascending_sort insertion_sort"
  by (simp add: ascending_sort_def insertion_sort_def)

lemma mset_sort_values:
  "ascending_sort kind \<Longrightarrow> mset (sort_values kind rows) = mset rows"
  by (simp add: ascending_sort_def sort_values_def)

lemma sorted_sort_values:
  "ascending_sort kind \<Longrightarrow> sorted (map DateTime (sort_values kind rows))"
  by (simp add: ascending_sort_def sort_values_def)

lemma set_sort_values:
  assumes "ascending_sort kind"
  shows "set (sort_values kind rows) = set rows"
  using mset_sort_values [OF assms, of rows] by (rule mset_eq_setD)

lemma length_sort_values:
  assumes "ascending_sort kind"
  shows "length (sort_values kind rows) = length rows"
  using mset_sort_values [OF assms, of rows] by (rule mset_eq_length)

lemma sort_values_Nil_iff:
  assumes "ascending_sort kind"
  shows "sort_values kind rows = [] \<longleftrightarrow> rows = []"
  using length_sort_values [OF assms, of rows] by (metis length_0_conv)

lemma sort_values_Nil:
  assumes "ascending_sort kind"
  shows "sort_values kind [] = []"
  using assms by (simp add: sort_values_Nil_iff)

lemma index_min_sort_values:
  assumes "ascending_sort kind"
  shows "index_min (map DateTime (sort_values kind rows)) = index_min (map DateTime rows)"
proof (cases "rows = []")
  case True
  then show ?thesis by (simp add: sort_values_Nil [OF assms])
next
  case False
  then show ?thesis
    by (simp add: index_min_Min sort_values_Nil_iff [OF assms] set_sort_values [OF assms])
qed

lemma index_max_sort_values:
  assumes "ascending_sort kind"
  shows "index_max (map DateTime (sort_values kind rows)) = index_max (map DateTime rows)"
proof (cases "rows = []")
  case True
  then show ?thesis by (simp add: sort_values_Nil [OF assms])
next
  case False
  then show ?thesis
    by (simp add: index_max_Max sort_values_Nil_iff [OF assms] set_sort_values [OF assms])
qed

lemma distinct_sort_values:
  assumes "ascending_sort kind"
  shows "distinct (map DateTime (sort_values kind rows)) = distinct (map DateTime rows)"
proof -
  have "mset (map DateTime (sort_values kind rows)) = mset (map DateTime rows)"
    using mset_sort_values [OF assms, of rows] by (metis mset_map)
  then show ?thesis by (rule mset_eq_imp_distinct_iff)
qed

lemma Timedelta_15_pos: "0 < Timedelta_minutes 15"
  by (simp add: Timedelta_minutes_def)

lemma length_date_range:
  "start \<le> stop \<Longrightarrow> length (date_range start stop freq) = Suc (nat ((stop - start) div freq))"
  by (simp add: date_range_def)

lemma nth_date_range:
  "start \<le> stop \<Longrightarrow> k < length (date_range start stop freq) \<Longrightarrow>
   date_range start stop freq ! k = start + int k * freq"
  by (simp add: date_range_def del: upt_Suc)

lemma date_range_ne: "start \<le> stop \<Longrightarrow> date_range start stop freq \<noteq> []"
  by (simp add: date_range_def)

lemma last_date_range:
  assumes "start \<le> stop" and "0 < freq"
  shows "last (date_range start stop freq) = start + ((stop - start) div freq) * freq"
proof -
  have nn: "0 \<le> (stop - start) div freq"
    using assms by (simp add: pos_imp_zdiv_nonneg_iff)
  have "last (date_range start stop freq) =
        date_range start stop freq ! (length (date_range start stop freq) - 1)"
    using assms(1) by (simp add: last_conv_nth date_range_ne)
  also have "\<dots> = start + int (nat ((stop - start) div freq)) * freq"
    using assms(1) by (simp add: nth_date_range length_date_range)
  finally show ?thesis using nn by simp
qed

lemma last_date_range_bounds:
  assumes "start \<le> stop" and "0 < freq"
  shows "last (date_range start stop freq) \<le> stop"
    and "stop < last (date_range start stop freq) + freq"
proof -
  have eq: "stop - start = ((stop - start) div freq) * freq + (stop - start) mod freq"
    by simp
  have m0: "0 \<le> (stop - start) mod freq" and m1: "(stop - start) mod freq < freq"
    using assms(2) by simp_all
  show "last (date_range start stop freq) \<le> stop"
    using eq m0 unfolding last_date_range[OF assms] by linarith
  show "stop < last (date_range start stop freq) + freq"
    using eq m1 unfolding last_date_range[OF assms] by linarith
qed

lemma date_range_ge_start:
  assumes "0 < freq" and "t \<in> set (date_range start stop freq)"
  shows "start \<le> t"
proof -
  from assms(2) obtain k :: nat where "t = start + int k * freq"
    by (auto simp del: upt_Suc simp add: date_range_def split: if_splits)
  moreover have "0 \<le> int k * freq" using assms(1) by simp
  ultimately show ?thesis by linarith
qed

lemma target_grid_eq:
  assumes "index_min (map DateTime rows) = Some t0" and "index_max (map DateTime rows) = Some t1"
      and "in_bounds (t1 + Timedelta_minutes 59)"
  shows "target_grid rows = Inr (date_range t0 (t1 + Timedelta_minutes 59) (Timedelta_minutes 15))"
  using assms by (simp add: target_grid_def pd_date_range_def plus_Timedelta_def)

lemma target_grid_out_of_bounds:
  assumes "index_max (map DateTime rows) = Some t1"
      and "\<not> in_bounds (t1 + Timedelta_minutes 59)"
  shows "target_grid rows = Inl OutOfBoundsDatetime"
  using assms by (simp add: target_grid_def plus_Timedelta_def)

lemma target_grid_empty: "target_grid [] = Inl NaT_bound"
  by (simp add: target_grid_def pd_date_range_def plus_Timedelta_def)

lemma takeWhile_sorted_filter:
  "sorted (map DateTime rows) \<Longrightarrow>
   takeWhile (\<lambda>r. DateTime r \<le> t) rows = filter (\<lambda>r. DateTime r \<le> t) rows"
proof (induction rows)
  case Nil
  then show ?case by simp
next
  case (Cons r rs)
  show ?case
  proof (cases "DateTime r \<le> t")
    case True
    with Cons show ?thesis by simp
  next
    case False
    with Cons.prems have "\<forall>x\<in>set rs. \<not> DateTime x \<le> t" by auto
    then have "filter (\<lambda>r. DateTime r \<le> t) rs = []" by (simp add: filter_empty_conv)
    with False show ?thesis by simp
  qed
qed

lemma sorted_le_last:
  assumes "sorted (map f xs)" and "x \<in> set xs"
  shows "f x \<le> f (last xs)"
proof -
  from assms(2) have ne: "xs \<noteq> []" by auto
  then have split: "xs = butlast xs @ [last xs]" by simp
  show ?thesis
  proof (cases "x = last xs")
    case True
    then show ?thesis by simp
  next
    case False
    with assms(2) split have "x \<in> set (butlast xs)"
      by (metis Un_iff empty_iff empty_set set_ConsD set_append)
    moreover from assms(1) split have "sorted (map f (butlast xs) @ [f (last xs)])"
      by (metis list.simps(8) list.simps(9) map_append)
    ultimately show ?thesis by (auto simp: sorted_append)
  qed
qed

lemma pad_None: "\<forall>r\<in>set rows. t < DateTime r \<Longrightarrow> pad rows t = None"
  by (cases rows) (simp_all add: pad_def last_option_def)

lemma pad_Some_latest:
  assumes "sorted (map DateTime rows)" and "pad rows t = Some r"
  shows "r \<in> set rows \<and> DateTime r \<le> t \<and>
         (\<forall>r'\<in>set rows. DateTime r' \<le> t \<longrightarrow> DateTime r' \<le> DateTime r)"
proof -
  let ?xs = "filter (\<lambda>r. DateTime r \<le> t) rows"
  from assms have ne: "?xs \<noteq> []" and r: "r = last ?xs"
    by (auto simp: pad_def last_option_def takeWhile_sorted_filter split: if_splits)
  from ne have "last ?xs \<in> set ?xs" by (rule last_in_set)
  with r have mem: "r \<in> set rows" and le: "DateTime r \<le> t" by simp_all
  have srt: "sorted (map DateTime ?xs)"
    using assms(1) by (rule sorted_filter)
  have "DateTime r' \<le> DateTime r" if "r' \<in> set rows" and "DateTime r' \<le> t" for r'
  proof -
    from that have "r' \<in> set ?xs" by simp
    with srt show ?thesis unfolding r by (rule sorted_le_last)
  qed
  with mem le show ?thesis by blast
qed

lemma pad_Some_ex:
  assumes "sorted (map DateTime rows)" and "r0 \<in> set rows" and "DateTime r0 \<le> t"
  shows "\<exists>r. pad rows t = Some r"
proof -
  from assms(2,3) have "filter (\<lambda>r. DateTime r \<le> t) rows \<noteq> []"
    by (auto simp: filter_empty_conv)
  with assms(1) show ?thesis
    by (simp add: pad_def last_option_def takeWhile_sorted_filter)
qed

lemma resample_eq:
  assumes asc: "ascending_sort kind"
      and "index_min (map DateTime rows) = Some t0"
      and "index_max (map DateTime rows) = Some t1"
      and "in_bounds (t1 + Timedelta_minutes 59)"
      and "distinct (map DateTime rows)"
  shows "resample kind rows =
         Inr (map (\<lambda>t. (t, pad (sort_values kind rows) t))
               (date_range t0 (t1 + Timedelta_minutes 59) (Timedelta_minutes 15)))"
proof -
  have "target_grid (sort_values kind rows) =
        Inr (date_range t0 (t1 + Timedelta_minutes 59) (Timedelta_minutes 15))"
    using assms(2,3,4)
    by (simp add: target_grid_eq index_min_sort_values [OF asc] index_max_sort_values [OF asc])
  with assms(5) show ?thesis
    by (simp add: resample_def reindex_ffill_def distinct_sort_values [OF asc])
qed

lemma resample_Nil:
  assumes "ascending_sort kind"
  shows "resample kind [] = Inl NaT_bound"
  by (simp add: resample_def sort_values_Nil [OF assms] target_grid_empty)

lemma resample_out_of_bounds:
  assumes asc: "ascending_sort kind"
      and "index_max (map DateTime rows) = Some t1"
      and "\<not> in_bounds (t1 + Timedelta_minutes 59)"
  shows "resample kind rows = Inl OutOfBoundsDatetime"
proof -
  have "target_grid (sort_values kind rows) = Inl OutOfBoundsDatetime"
    using assms(2,3) by (simp add: target_grid_out_of_bounds index_max_sort_values [OF asc])
  then show ?thesis by (simp add: resample_def)
qed

lemma resample_duplicates:
  assumes asc: "ascending_sort kind"
      and "index_max (map DateTime rows) = Some t1"
      and "in_bounds (t1 + Timedelta_minutes 59)"
      and "\<not> distinct (map DateTime rows)"
  shows "resample kind rows = Inl Duplicate_labels"
proof -
  from assms(2) have "rows \<noteq> []" by auto
  then obtain t0 where "index_min (map DateTime rows) = Some t0"
    by (auto simp: index_min_Some_iff)
  with assms(2,3) have "target_grid (sort_values kind rows) =
        Inr (date_range t0 (t1 + Timedelta_minutes 59) (Timedelta_minutes 15))"
    by (simp add: target_grid_eq index_min_sort_values [OF asc] index_max_sort_values [OF asc])
  with assms(4) show ?thesis
    by (simp add: resample_def reindex_ffill_def distinct_sort_values [OF asc])
qed

lemma plot_price_eq:
  assumes "ascending_sort kind"
      and "index_min (map DateTime (selection day area data)) = Some t0"
      and "index_max (map DateTime (selection day area data)) = Some t1"
      and "in_bounds (t1 + Timedelta_minutes 59)"
      and "distinct (map DateTime (selection day area data))"
  shows "plot_price kind day area data =
         Inr (map (\<lambda>t. (t, map_option Price (pad (sort_values kind (selection day area data)) t)))
               (date_range t0 (t1 + Timedelta_minutes 59) (Timedelta_minutes 15)))"
  by (simp add: plot_price_def resample_eq [OF assms] px_line_def)

lemma plot_price_InrD:
  assumes asc: "ascending_sort kind"
      and run: "plot_price kind day area data = Inr series"
  shows "\<exists>t0 t1. index_min (map DateTime (selection day area data)) = Some t0 \<and>
           index_max (map DateTime (selection day area data)) = Some t1 \<and>
           in_bounds (t1 + Timedelta_minutes 59) \<and>
           distinct (map DateTime (selection day area data))"
proof -
  let ?rows = "selection day area data"
  have ne: "?rows \<noteq> []"
    using run by (auto simp: plot_price_def resample_Nil [OF asc])
  then obtain t0 t1 where
    lo: "index_min (map DateTime ?rows) = Some t0" and
    hi: "index_max (map DateTime ?rows) = Some t1"
    by (auto simp: index_min_Some_iff index_max_Some_iff)
  have bound: "in_bounds (t1 + Timedelta_minutes 59)"
  proof (rule ccontr)
    assume "\<not> in_bounds (t1 + Timedelta_minutes 59)"
    with asc hi have "resample kind ?rows = Inl OutOfBoundsDatetime"
      by (rule resample_out_of_bounds)
    with run show False by (simp add: plot_price_def)
  qed
  have "distinct (map DateTime ?rows)"
  proof (rule ccontr)
    assume "\<not> distinct (map DateTime ?rows)"
    with asc hi bound have "resample kind ?rows = Inl Duplicate_labels"
      by (rule resample_duplicates)
    with run show False by (simp add: plot_price_def)
  qed
  with lo hi bound show ?thesis by blast
qed

lemma upt_four: "[m ..< m + 4] = [m, m + 1, m + 2, m + 3]"
  by (simp add: upt_conv_Cons)

section \<open>The result of plot\_price does not depend on the sorting algorithm\<close>

lemma sort_values_determined:
  assumes a1: "ascending_sort kind1" and a2: "ascending_sort kind2"
      and dist: "distinct (map DateTime rows)"
  shows "sort_values kind1 rows = sort_values kind2 rows"
proof -
  let ?ys = "sort_values kind1 rows" and ?zs = "sort_values kind2 rows"
  have "mset (map DateTime ?ys) = mset (map DateTime rows)"
    using mset_sort_values [OF a1, of rows] by (metis mset_map)
  then have y: "sort (map DateTime rows) = map DateTime ?ys"
    using sorted_sort_values [OF a1] by (rule properties_for_sort)
  have "mset (map DateTime ?zs) = mset (map DateTime rows)"
    using mset_sort_values [OF a2, of rows] by (metis mset_map)
  then have z: "sort (map DateTime rows) = map DateTime ?zs"
    using sorted_sort_values [OF a2] by (rule properties_for_sort)
  from y z have same: "map DateTime ?ys = map DateTime ?zs" by simp
  from dist have "inj_on DateTime (set rows)" by (simp add: distinct_map)
  then have "inj_on DateTime (set ?ys \<union> set ?zs)"
    by (simp add: set_sort_values [OF a1] set_sort_values [OF a2])
  then show ?thesis using same by (simp add: inj_on_map_eq_map)
qed

lemma plot_price_any_sorter:
  assumes a1: "ascending_sort kind1" and a2: "ascending_sort kind2"
  shows "plot_price kind1 day area data = plot_price kind2 day area data"
proof (cases "selection day area data = []")
  case True
  then show ?thesis
    by (simp add: plot_price_def resample_Nil [OF a1] resample_Nil [OF a2])
next
  case False
  then obtain t0 t1 where
    lo: "index_min (map DateTime (selection day area data)) = Some t0" and
    hi: "index_max (map DateTime (selection day area data)) = Some t1"
    by (auto simp: index_min_Some_iff index_max_Some_iff)
  show ?thesis
  proof (cases "in_bounds (t1 + Timedelta_minutes 59)")
    case False
    then show ?thesis
      by (simp add: plot_price_def resample_out_of_bounds [OF a1 hi]
          resample_out_of_bounds [OF a2 hi])
  next
    case bound: True
    show ?thesis
    proof (cases "distinct (map DateTime (selection day area data))")
      case False
      then show ?thesis
        by (simp add: plot_price_def resample_duplicates [OF a1 hi bound]
            resample_duplicates [OF a2 hi bound])
    next
      case True
      then show ?thesis
        unfolding plot_price_eq [OF a1 lo hi bound True] plot_price_eq [OF a2 lo hi bound True]
        by (simp add: sort_values_determined [OF a1 a2 True])
    qed
  qed
qed

section \<open>A selection that matches nothing\<close>

lemma mtu_table_Nil: "mtu_table [] = []"
  by (simp add: mtu_table_def shift_back_def)

lemma plot_price_empty_selection:
  assumes "ascending_sort kind" and "selection day area data = []"
  shows "plot_price kind day area data = Inl NaT_bound"
  using assms(2) by (simp add: plot_price_def resample_Nil [OF assms(1)])

text \<open>
  Claim C3 says that for a selection matching no observation both \<^verbatim>\<open>plot_price\<close> and
  \<^verbatim>\<open>update_table\<close> return an empty series or table rather than raising. For
  \<^verbatim>\<open>plot_price\<close> this fails: on 2023-01-16 the dataset with one observation on
  2023-01-15 has no matching row, and the call ends in the ValueError of
  \<^verbatim>\<open>pd.date_range\<close>.
\<close>

theorem no_match_chart_fails:
  "selection ''2023-01-16'' ''NO3'' single_obs_df = [] \<and>
   plot_price insertion_sort ''2023-01-16'' ''NO3'' single_obs_df = Inl NaT_bound"
  by code_simp

text \<open>
  Claim C3, amended: for every selection that matches no observation, \<^verbatim>\<open>update_table\<close>
  returns the empty table, and \<^verbatim>\<open>plot_price\<close> returns no series: it fails with the
  ValueError that \<^verbatim>\<open>pd.date_range\<close> raises for a NaT bound.
\<close>

theorem no_match_outcomes:
  assumes "ascending_sort kind" and "selection day area data = []"
  shows "update_table kind day area data = [] \<and> plot_price kind day area data = Inl NaT_bound"
  using assms
  by (simp add: update_table_def sort_values_Nil mtu_table_Nil plot_price_empty_selection)

theorem no_match_outcomes_witness:
  "ascending_sort insertion_sort \<and>
   selection ''2023-01-01'' ''NO3'' sample_df = [] \<and>
   update_table insertion_sort ''2023-01-01'' ''NO3'' sample_df = [] \<and>
   plot_price insertion_sort ''2023-01-01'' ''NO3'' sample_df = Inl NaT_bound"
proof -
  have none: "selection ''2023-01-01'' ''NO3'' sample_df = []"
    by code_simp
  from no_match_outcomes [OF ascending_insertion_sort none] ascending_insertion_sort none
  show ?thesis by simp
qed

section \<open>A single matching observation\<close>

lemma sort_values_single:
  assumes "ascending_sort kind"
  shows "sort_values kind [r] = [r]"
proof -
  from mset_sort_values [OF assms, of "[r]"] have "mset (sort_values kind [r]) = {#r#}"
    by simp
  then show ?thesis by (simp add: mset_single_iff_right)
qed

lemma date_range_hour:
  "date_range t (t + Timedelta_minutes 59) (Timedelta_minutes 15) =
     [t, t + Timedelta_minutes 15, t + Timedelta_minutes 30, t + Timedelta_minutes 45]"
proof -
  have d: "(t + Timedelta_minutes 59 - t) div Timedelta_minutes 15 = 3"
    by (simp add: Timedelta_minutes_def)
  have le: "\<not> t + Timedelta_minutes 59 < t"
    by (simp add: Timedelta_minutes_def)
  have "date_range t (t + Timedelta_minutes 59) (Timedelta_minutes 15) =
        map (\<lambda>k. t + int k * Timedelta_minutes 15) [0 ..< 0 + 4]"
    using le unfolding date_range_def d by simp
  also have "\<dots> = [t, t + Timedelta_minutes 15, t + Timedelta_minutes 30,
                    t + Timedelta_minutes 45]"
    unfolding upt_four by (simp add: Timedelta_minutes_def)
  finally show ?thesis .
qed

lemma single_row_plot_price:
  assumes asc: "ascending_sort kind"
      and one: "selection day area data = [r]"
      and bound: "in_bounds (DateTime r + Timedelta_minutes 59)"
  shows "plot_price kind day area data =
         Inr [(DateTime r, Some (Price r)),
              (DateTime r + Timedelta_minutes 15, Some (Price r)),
              (DateTime r + Timedelta_minutes 30, Some (Price r)),
              (DateTime r + Timedelta_minutes 45, Some (Price r))]"
proof -
  have lo: "index_min (map DateTime (selection day area data)) = Some (DateTime r)"
    and hi: "index_max (map DateTime (selection day area data)) = Some (DateTime r)"
    and dist: "distinct (map DateTime (selection day area data))"
    by (simp_all add: one)
  have fill: "pad [r] (DateTime r + Timedelta_minutes m) = Some r" if "0 \<le> m" for m
    using that by (simp add: pad_def last_option_def Timedelta_minutes_def)
  have "pad [r] (DateTime r) = Some r"
    by (simp add: pad_def last_option_def)
  with fill [of 15] fill [of 30] fill [of 45] show ?thesis
    unfolding plot_price_eq [OF asc lo hi bound dist] date_range_hour one
      sort_values_single [OF asc]
    by simp
qed

text \<open>
  Claim C7 says that for day 2023-01-15 and area NO3, with one matching observation at
  00:00 of price 50.2, the output has 96 slots, all of price 50.2. The count fails: the
  output has 4 slots.
\<close>

theorem single_observation_slot_count:
  "map_sum id length (plot_price insertion_sort ''2023-01-15'' ''NO3'' single_obs_df) = Inr 4"
  by code_simp

text \<open>
  Claim C7, amended: for day 2023-01-15 and area NO3, when the dataset contains exactly
  one matching observation, timestamped at 00:00 of that day with price 50.2, the output
  has the 4 slots 00:00, 00:15, 00:30 and 00:45, and every slot's price is 50.2.
\<close>

theorem single_observation_series:
  assumes asc: "ascending_sort kind"
      and one: "selection ''2023-01-15'' ''NO3'' data = [r]"
      and at: "DateTime r = 1673740800000000000"
      and price: "Price r = 50.2"
  shows "plot_price kind ''2023-01-15'' ''NO3'' data =
           Inr [(1673740800000000000, Some 50.2),
                (1673740800000000000 + Timedelta_minutes 15, Some 50.2),
                (1673740800000000000 + Timedelta_minutes 30, Some 50.2),
                (1673740800000000000 + Timedelta_minutes 45, Some 50.2)] \<and>
         map strftime_HM
           [1673740800000000000,
            1673740800000000000 + Timedelta_minutes 15,
            1673740800000000000 + Timedelta_minutes 30,
            1673740800000000000 + Timedelta_minutes 45] =
           [''00:00'', ''00:15'', ''00:30'', ''00:45'']"
proof -
  have bound: "in_bounds (DateTime r + Timedelta_minutes 59)"
    unfolding at
    by (simp add: in_bounds_def Timestamp_min_def Timestamp_max_def Timedelta_minutes_def)
  have run: "plot_price kind ''2023-01-15'' ''NO3'' data =
           Inr [(1673740800000000000, Some 50.2),
                (1673740800000000000 + Timedelta_minutes 15, Some 50.2),
                (1673740800000000000 + Timedelta_minutes 30, Some 50.2),
                (1673740800000000000 + Timedelta_minutes 45, Some 50.2)]"
    using single_row_plot_price [OF asc one bound] unfolding at price .
  have times: "map strftime_HM
           [1673740800000000000,
            1673740800000000000 + Timedelta_minutes 15,
            1673740800000000000 + Timedelta_minutes 30,
            1673740800000000000 + Timedelta_minutes 45] =
           [''00:00'', ''00:15'', ''00:30'', ''00:45'']"
    by code_simp
  from run times show ?thesis ..
qed

theorem single_observation_series_witness:
  "ascending_sort insertion_sort \<and>
   selection ''2023-01-15'' ''NO3'' single_match_df =
     [\<lparr>DateTime = 1673740800000000000, MapCode = ''NO3'', Price = 50.2,
       Day = ''2023-01-15''\<rparr>] \<and>
   length single_match_df = 3 \<and>
   plot_price insertion_sort ''2023-01-15'' ''NO3'' single_match_df =
     Inr [(1673740800000000000, Some 50.2),
          (1673740800000000000 + Timedelta_minutes 15, Some 50.2),
          (1673740800000000000 + Timedelta_minutes 30, Some 50.2),
          (1673740800000000000 + Timedelta_minutes 45, Some 50.2)]"
proof -
  let ?r = "\<lparr>DateTime = 1673740800000000000, MapCode = ''NO3'', Price = 50.2,
             Day = ''2023-01-15''\<rparr>"
  have one: "selection ''2023-01-15'' ''NO3'' single_match_df = [?r]"
    by code_simp
  have rows: "length single_match_df = 3"
    by code_simp
  have at: "DateTime ?r = 1673740800000000000" and price: "Price ?r = 50.2"
    by simp_all
  from single_observation_series [OF ascending_insertion_sort one at price]
  have "plot_price insertion_sort ''2023-01-15'' ''NO3'' single_match_df =
     Inr [(1673740800000000000, Some 50.2),
          (1673740800000000000 + Timedelta_minutes 15, Some 50.2),
          (1673740800000000000 + Timedelta_minutes 30, Some 50.2),
          (1673740800000000000 + Timedelta_minutes 45, Some 50.2)]"
    by (rule conjunct1)
  with ascending_insertion_sort one rows show ?thesis by (intro conjI)
qed

section \<open>The number of slots and the grid\<close>

lemma zdiv_eq_iff:
  fixes a b k :: int
  assumes "0 < b"
  shows "a div b = k \<longleftrightarrow> k * b \<le> a \<and> a < (k + 1) * b"
proof
  assume eq: "a div b = k"
  have "a = (a div b) * b + a mod b" by simp
  moreover have "0 \<le> a mod b" and "a mod b < b" using assms by simp_all
  ultimately show "k * b \<le> a \<and> a < (k + 1) * b"
    unfolding eq by (simp add: algebra_simps)
next
  assume bounds: "k * b \<le> a \<and> a < (k + 1) * b"
  show "a div b = k"
  proof (rule int_div_pos_eq)
    show "a = b * k + (a - k * b)" by (simp add: algebra_simps)
    show "0 \<le> a - k * b" using bounds by simp
    show "a - k * b < b" using bounds by (simp add: algebra_simps)
  qed
qed

lemma slot_count_96_iff:
  assumes "0 \<le> d"
  shows "Suc (nat ((d + Timedelta_minutes 59) div Timedelta_minutes 15)) = 96 \<longleftrightarrow>
         Timedelta_minutes 1366 \<le> d \<and> d < Timedelta_minutes 1381"
proof -
  let ?x = "(d + Timedelta_minutes 59) div Timedelta_minutes 15"
  have nn: "0 \<le> ?x"
    using assms by (simp add: pos_imp_zdiv_nonneg_iff Timedelta_minutes_def)
  have "Suc (nat ?x) = 96 \<longleftrightarrow> ?x = 95"
    using nn by linarith
  also have "\<dots> \<longleftrightarrow> 95 * Timedelta_minutes 15 \<le> d + Timedelta_minutes 59 \<and>
                    d + Timedelta_minutes 59 < (95 + 1) * Timedelta_minutes 15"
    by (rule zdiv_eq_iff) (rule Timedelta_15_pos)
  also have "\<dots> \<longleftrightarrow> Timedelta_minutes 1366 \<le> d \<and> d < Timedelta_minutes 1381"
    by (simp add: Timedelta_minutes_def)
  finally show ?thesis .
qed

lemma length_plot_price:
  assumes asc: "ascending_sort kind"
      and lo: "index_min (map DateTime (selection day area data)) = Some t0"
      and hi: "index_max (map DateTime (selection day area data)) = Some t1"
      and run: "plot_price kind day area data = Inr series"
  shows "length series = Suc (nat ((t1 - t0 + Timedelta_minutes 59) div Timedelta_minutes 15))"
proof -
  from plot_price_InrD [OF asc run] lo hi have
    bound: "in_bounds (t1 + Timedelta_minutes 59)" and
    dist: "distinct (map DateTime (selection day area data))"
    by auto
  have le: "t0 \<le> t1 + Timedelta_minutes 59"
    using index_min_le_max [OF lo hi] by (simp add: Timedelta_minutes_def)
  have "length series =
        length (date_range t0 (t1 + Timedelta_minutes 59) (Timedelta_minutes 15))"
    using run unfolding plot_price_eq [OF asc lo hi bound dist] by auto
  also have "\<dots> = Suc (nat ((t1 + Timedelta_minutes 59 - t0) div Timedelta_minutes 15))"
    using le by (rule length_date_range)
  finally show ?thesis by (simp add: algebra_simps)
qed

lemma plot_price_out_of_bounds:
  assumes "ascending_sort kind"
      and "index_max (map DateTime (selection day area data)) = Some t1"
      and "\<not> in_bounds (t1 + Timedelta_minutes 59)"
  shows "plot_price kind day area data = Inl OutOfBoundsDatetime"
  by (simp add: plot_price_def resample_out_of_bounds [OF assms])

text \<open>
  Claim C1 says that for every selection with at least one matching observation the
  resampled series has exactly 96 slots, whatever the resolution of the input. It
  fails for the two NO1 observations of 2023-01-01 in the sample dataset, at 00:00 and
  01:00: the series has 8 slots.
\<close>

theorem two_observations_slot_count:
  "length (selection ''2023-01-01'' ''NO1'' sample_df) = 2 \<and>
   map_sum id length (plot_price insertion_sort ''2023-01-01'' ''NO1'' sample_df) = Inr 8"
  by code_simp

text \<open>
  Claim C1, amended: for every selection with at least one matching observation, all
  with different timestamps, and with the last timestamp \<open>t1\<close> plus 59 minutes still a
  timestamp that pandas can hold, \<^verbatim>\<open>plot_price\<close> returns a series, and the series has
  \<open>(t1 - t0 + 59 min) div 15 min + 1\<close> slots, where \<open>t0\<close> is the first matching timestamp. It
  has exactly 96 slots if and only if the last observation is at least 1366 minutes and
  less than 1381 minutes after the first, as for hourly input from 00:00 to 23:00.
\<close>

theorem plot_price_slot_count:
  assumes asc: "ascending_sort kind"
      and lo: "index_min (map DateTime (selection day area data)) = Some t0"
      and hi: "index_max (map DateTime (selection day area data)) = Some t1"
      and bound: "in_bounds (t1 + Timedelta_minutes 59)"
      and dist: "distinct (map DateTime (selection day area data))"
  shows "\<exists>series. plot_price kind day area data = Inr series \<and>
           length series = Suc (nat ((t1 - t0 + Timedelta_minutes 59) div Timedelta_minutes 15)) \<and>
           (length series = 96 \<longleftrightarrow>
              Timedelta_minutes 1366 \<le> t1 - t0 \<and> t1 - t0 < Timedelta_minutes 1381)"
proof -
  from plot_price_eq [OF asc lo hi bound dist] obtain series where
    s: "plot_price kind day area data = Inr series"
    by blast
  have len: "length series =
             Suc (nat ((t1 - t0 + Timedelta_minutes 59) div Timedelta_minutes 15))"
    using asc lo hi s by (rule length_plot_price)
  have "0 \<le> t1 - t0"
    using index_min_le_max [OF lo hi] by simp
  then have "length series = 96 \<longleftrightarrow>
             Timedelta_minutes 1366 \<le> t1 - t0 \<and> t1 - t0 < Timedelta_minutes 1381"
    unfolding len by (rule slot_count_96_iff)
  with s len show ?thesis by blast
qed

theorem plot_price_slot_count_witness:
  "ascending_sort insertion_sort \<and>
   index_min (map DateTime (selection ''2023-01-01'' ''NO1'' sample_df)) = Some 1672531200000000000 \<and>
   index_max (map DateTime (selection ''2023-01-01'' ''NO1'' sample_df)) = Some 1672534800000000000 \<and>
   in_bounds (1672534800000000000 + Timedelta_minutes 59) \<and>
   distinct (map DateTime (selection ''2023-01-01'' ''NO1'' sample_df)) \<and>
   (\<exists>series. plot_price insertion_sort ''2023-01-01'' ''NO1'' sample_df = Inr series \<and>
      length series = 8 \<and> length series \<noteq> 96)"
proof -
  have lo: "index_min (map DateTime (selection ''2023-01-01'' ''NO1'' sample_df)) =
            Some 1672531200000000000"
    by code_simp
  have hi: "index_max (map DateTime (selection ''2023-01-01'' ''NO1'' sample_df)) =
            Some 1672534800000000000"
    by code_simp
  have bound: "in_bounds (1672534800000000000 + Timedelta_minutes 59)"
    by (simp add: in_bounds_def Timestamp_min_def Timestamp_max_def Timedelta_minutes_def)
  have dist: "distinct (map DateTime (selection ''2023-01-01'' ''NO1'' sample_df))"
    by code_simp
  from plot_price_slot_count [OF ascending_insertion_sort lo hi bound dist] obtain series where
    s: "plot_price insertion_sort ''2023-01-01'' ''NO1'' sample_df = Inr series" and
    len: "length series = Suc (nat ((1672534800000000000 - 1672531200000000000 +
            Timedelta_minutes 59) div Timedelta_minutes 15))"
    by blast
  have "Suc (nat ((1672534800000000000 - 1672531200000000000 +
            Timedelta_minutes 59) div Timedelta_minutes 15)) = 8"
    by (simp add: Timedelta_minutes_def)
  with len have "length series = 8" by simp
  with s ascending_insertion_sort lo hi bound dist show ?thesis by simp
qed

lemma target_grid_selection:
  assumes asc: "ascending_sort kind"
      and lo: "index_min (map DateTime (selection day area data)) = Some t0"
      and hi: "index_max (map DateTime (selection day area data)) = Some t1"
      and bound: "in_bounds (t1 + Timedelta_minutes 59)"
  shows "target_grid (sort_values kind (selection day area data)) =
         Inr (map (\<lambda>k. t0 + int k * Timedelta_minutes 15)
               [0 ..< Suc (nat ((t1 - t0 + Timedelta_minutes 59) div Timedelta_minutes 15))])"
proof -
  have le: "\<not> t1 + Timedelta_minutes 59 < t0"
    using index_min_le_max [OF lo hi] by (simp add: Timedelta_minutes_def)
  have "target_grid (sort_values kind (selection day area data)) =
        Inr (date_range t0 (t1 + Timedelta_minutes 59) (Timedelta_minutes 15))"
    using lo hi bound
    by (simp add: target_grid_eq index_min_sort_values [OF asc] index_max_sort_values [OF asc])
  also have "date_range t0 (t1 + Timedelta_minutes 59) (Timedelta_minutes 15) =
        map (\<lambda>k. t0 + int k * Timedelta_minutes 15)
          [0 ..< Suc (nat ((t1 + Timedelta_minutes 59 - t0) div Timedelta_minutes 15))]"
    using le unfolding date_range_def by (simp only: if_False)
  also have "t1 + Timedelta_minutes 59 - t0 = t1 - t0 + Timedelta_minutes 59"
    by simp
  finally show ?thesis .
qed

text \<open>
  Claim C2 says that the target grid starts at 00:00 of the day of the first observation
  and runs through 23:45 of that day. It fails for the dataset with one observation at
  05:00 of 2023-01-15: the grid is 05:00, 05:15, 05:30, 05:45.
\<close>

theorem late_start_grid:
  "index_min (map DateTime (selection ''2023-01-15'' ''NO3'' late_start_df)) =
     Some 1673758800000000000 \<and>
   target_grid (sort_values insertion_sort (selection ''2023-01-15'' ''NO3'' late_start_df)) =
     Inr [1673758800000000000,
          1673758800000000000 + Timedelta_minutes 15,
          1673758800000000000 + Timedelta_minutes 30,
          1673758800000000000 + Timedelta_minutes 45] \<and>
   strftime_HM 1673758800000000000 = ''05:00'' \<and>
   target_grid (sort_values insertion_sort (selection ''2023-01-15'' ''NO3'' late_start_df)) \<noteq>
     Inr (spec_day_grid 1673758800000000000)"
  by code_simp

text \<open>
  Claim C2, amended: for every non-empty filtered observation set whose last observed
  timestamp \<open>t1\<close> plus 59 minutes is still a timestamp that pandas can hold, the target
  grid consists of consecutive 15-minute slots that start at the first observed timestamp
  \<open>t0\<close> itself and run through the last slot that is not after \<open>t1\<close> plus 59 minutes. It is the grid from 00:00 through 23:45 of the day of \<open>t0\<close> if and only if
  \<open>t0\<close> is at 00:00 and \<open>t1\<close> is at least 1366 and less than 1381 minutes later.
\<close>

theorem target_grid_slots:
  assumes asc: "ascending_sort kind"
      and lo: "index_min (map DateTime (selection day area data)) = Some t0"
      and hi: "index_max (map DateTime (selection day area data)) = Some t1"
      and bound: "in_bounds (t1 + Timedelta_minutes 59)"
  shows "target_grid (sort_values kind (selection day area data)) =
           Inr (map (\<lambda>k. t0 + int k * Timedelta_minutes 15)
                 [0 ..< Suc (nat ((t1 - t0 + Timedelta_minutes 59) div Timedelta_minutes 15))]) \<and>
         (target_grid (sort_values kind (selection day area data)) = Inr (spec_day_grid t0) \<longleftrightarrow>
            t0 mod ns_per_day = 0 \<and>
            Timedelta_minutes 1366 \<le> t1 - t0 \<and> t1 - t0 < Timedelta_minutes 1381)"
proof -
  let ?n = "Suc (nat ((t1 - t0 + Timedelta_minutes 59) div Timedelta_minutes 15))"
  let ?g = "map (\<lambda>k. t0 + int k * Timedelta_minutes 15) [0 ..< ?n]"
  have grid: "target_grid (sort_values kind (selection day area data)) = Inr ?g"
    using asc lo hi bound by (rule target_grid_selection)
  have span: "0 \<le> t1 - t0"
    using index_min_le_max [OF lo hi] by simp
  have count: "?n = 96 \<longleftrightarrow>
               Timedelta_minutes 1366 \<le> t1 - t0 \<and> t1 - t0 < Timedelta_minutes 1381"
    using span by (rule slot_count_96_iff)
  have "?g = spec_day_grid t0 \<longleftrightarrow> t0 mod ns_per_day = 0 \<and> ?n = 96"
  proof
    assume eq: "?g = spec_day_grid t0"
    then have "length ?g = length (spec_day_grid t0)" by simp
    then have n: "?n = 96" by (simp add: spec_day_grid_def)
    from eq have "?g ! 0 = spec_day_grid t0 ! 0" by simp
    then have "t0 = t0 - t0 mod ns_per_day"
      by (simp add: spec_day_grid_def nth_map_upt upt_rec del: upt_Suc)
    with n show "t0 mod ns_per_day = 0 \<and> ?n = 96" by simp
  next
    assume "t0 mod ns_per_day = 0 \<and> ?n = 96"
    then show "?g = spec_day_grid t0" by (simp add: spec_day_grid_def)
  qed
  with grid count show ?thesis by simp
qed

theorem target_grid_slots_witness:
  "ascending_sort insertion_sort \<and>
   index_min (map DateTime (selection ''2023-01-01'' ''NO1'' sample_df)) = Some 1672531200000000000 \<and>
   index_max (map DateTime (selection ''2023-01-01'' ''NO1'' sample_df)) = Some 1672534800000000000 \<and>
   in_bounds (1672534800000000000 + Timedelta_minutes 59) \<and>
   target_grid (sort_values insertion_sort (selection ''2023-01-01'' ''NO1'' sample_df)) =
     Inr (map (\<lambda>k. 1672531200000000000 + int k * Timedelta_minutes 15) [0 ..< 8]) \<and>
   target_grid (sort_values insertion_sort (selection ''2023-01-01'' ''NO1'' sample_df)) \<noteq>
     Inr (spec_day_grid 1672531200000000000)"
proof -
  have lo: "index_min (map DateTime (selection ''2023-01-01'' ''NO1'' sample_df)) =
            Some 1672531200000000000"
    by code_simp
  have hi: "index_max (map DateTime (selection ''2023-01-01'' ''NO1'' sample_df)) =
            Some 1672534800000000000"
    by code_simp
  have bound: "in_bounds (1672534800000000000 + Timedelta_minutes 59)"
    by (simp add: in_bounds_def Timestamp_min_def Timestamp_max_def Timedelta_minutes_def)
  have n: "Suc (nat ((1672534800000000000 - 1672531200000000000 +
            Timedelta_minutes 59) div Timedelta_minutes 15)) = 8"
    by (simp add: Timedelta_minutes_def)
  have far: "\<not> Timedelta_minutes 1366 \<le> 1672534800000000000 - 1672531200000000000"
    by (simp add: Timedelta_minutes_def)
  note slots = target_grid_slots [OF ascending_insertion_sort lo hi bound, unfolded n]
  from slots have grid:
    "target_grid (sort_values insertion_sort (selection ''2023-01-01'' ''NO1'' sample_df)) =
     Inr (map (\<lambda>k. 1672531200000000000 + int k * Timedelta_minutes 15) [0 ..< 8])"
    by (rule conjunct1)
  from slots far have other:
    "target_grid (sort_values insertion_sort (selection ''2023-01-01'' ''NO1'' sample_df)) \<noteq>
     Inr (spec_day_grid 1672531200000000000)"
    by blast
  from ascending_insertion_sort lo hi bound grid other show ?thesis by blast
qed

section \<open>Forward fill\<close>

lemma index_min_attained:
  assumes "index_min (map DateTime rs) = Some t0"
  shows "\<exists>r\<in>set rs. DateTime r = t0"
proof -
  from assms have ne: "map DateTime rs \<noteq> []" and t0: "t0 = Min (set (map DateTime rs))"
    by (simp_all add: index_min_Some_iff)
  from ne have "Min (set (map DateTime rs)) \<in> set (map DateTime rs)"
    by (intro Min_in) simp_all
  with t0 show ?thesis by auto
qed

lemma index_min_lower:
  assumes "index_min (map DateTime rs) = Some t0" and "r \<in> set rs"
  shows "t0 \<le> DateTime r"
proof -
  from assms(1) have "t0 = Min (set (map DateTime rs))"
    by (simp add: index_min_Some_iff)
  moreover from assms(2) have "DateTime r \<in> set (map DateTime rs)" by simp
  ultimately show ?thesis by (simp only: Min_le List.finite_set)
qed

lemma index_max_upper:
  assumes "index_max (map DateTime rs) = Some t1" and "r \<in> set rs"
  shows "DateTime r \<le> t1"
proof -
  from assms(1) have "t1 = Max (set (map DateTime rs))"
    by (simp add: index_max_Some_iff)
  moreover from assms(2) have "DateTime r \<in> set (map DateTime rs)" by simp
  ultimately show ?thesis by (simp only: Max_ge List.finite_set)
qed

lemma series_entry:
  assumes asc: "ascending_sort kind"
      and run: "plot_price kind day area data = Inr series"
      and lo: "index_min (map DateTime (selection day area data)) = Some t0"
      and slot: "(t, v) \<in> set series"
  shows "t0 \<le> t"
    and "v = map_option Price (pad (sort_values kind (selection day area data)) t)"
proof -
  from plot_price_InrD [OF asc run] lo obtain t1 where
    hi: "index_max (map DateTime (selection day area data)) = Some t1" and
    bound: "in_bounds (t1 + Timedelta_minutes 59)" and
    dist: "distinct (map DateTime (selection day area data))"
    by auto
  from run have "series =
      map (\<lambda>t. (t, map_option Price (pad (sort_values kind (selection day area data)) t)))
        (date_range t0 (t1 + Timedelta_minutes 59) (Timedelta_minutes 15))"
    unfolding plot_price_eq [OF asc lo hi bound dist] by simp
  with slot have
    mem: "t \<in> set (date_range t0 (t1 + Timedelta_minutes 59) (Timedelta_minutes 15))" and
    val: "v = map_option Price (pad (sort_values kind (selection day area data)) t)"
    by auto
  from Timedelta_15_pos mem show "t0 \<le> t" by (rule date_range_ge_start)
  from val show "v = map_option Price (pad (sort_values kind (selection day area data)) t)" .
qed

text \<open>
  Claim C4: in the resampled series, for every slot at or after the first matching
  observation, the slot's price is the price of the latest matching observation whose
  timestamp is less than or equal to the slot's start. Every slot of the series is at
  or after the first matching observation, so the theorem speaks of every slot.
\<close>

theorem forward_fill_correct:
  assumes asc: "ascending_sort kind"
      and run: "plot_price kind day area data = Inr series"
      and slot: "(t, v) \<in> set series"
  shows "\<exists>r\<in>set (selection day area data).
           DateTime r \<le> t \<and> v = Some (Price r) \<and>
           (\<forall>r'\<in>set (selection day area data). DateTime r' \<le> t \<longrightarrow> DateTime r' \<le> DateTime r)"
proof -
  let ?sel = "selection day area data"
  from plot_price_InrD [OF asc run] obtain t0 where
    lo: "index_min (map DateTime ?sel) = Some t0"
    by blast
  from series_entry [OF asc run lo slot] have
    ge: "t0 \<le> t" and val: "v = map_option Price (pad (sort_values kind ?sel) t)"
    by simp_all
  note srt = sorted_sort_values [OF asc, of ?sel]
  from index_min_attained [OF lo] obtain r0 where "r0 \<in> set ?sel" and "DateTime r0 = t0"
    by blast
  with ge have "r0 \<in> set (sort_values kind ?sel)" and "DateTime r0 \<le> t"
    by (simp_all add: set_sort_values [OF asc])
  with srt obtain r where pad: "pad (sort_values kind ?sel) t = Some r"
    using pad_Some_ex by blast
  from pad_Some_latest [OF srt pad] have
    "r \<in> set ?sel \<and> DateTime r \<le> t \<and>
     (\<forall>r'\<in>set ?sel. DateTime r' \<le> t \<longrightarrow> DateTime r' \<le> DateTime r)"
    by (simp add: set_sort_values [OF asc])
  moreover from val pad have "v = Some (Price r)" by simp
  ultimately show ?thesis by blast
qed

theorem forward_fill_correct_witness:
  "ascending_sort insertion_sort \<and>
   plot_price insertion_sort ''2023-01-01'' ''NO1'' sample_df =
     Inr [(1672531200000000000, Some 10), (1672532100000000000, Some 10),
          (1672533000000000000, Some 10), (1672533900000000000, Some 10),
          (1672534800000000000, Some 20), (1672535700000000000, Some 20),
          (1672536600000000000, Some 20), (1672537500000000000, Some 20)] \<and>
   (\<exists>r\<in>set (selection ''2023-01-01'' ''NO1'' sample_df).
      DateTime r \<le> 1672535700000000000 \<and> Some 20 = Some (Price r) \<and>
      (\<forall>r'\<in>set (selection ''2023-01-01'' ''NO1'' sample_df).
         DateTime r' \<le> 1672535700000000000 \<longrightarrow> DateTime r' \<le> DateTime r))"
proof -
  have run: "plot_price insertion_sort ''2023-01-01'' ''NO1'' sample_df =
     Inr [(1672531200000000000, Some 10), (1672532100000000000, Some 10),
          (1672533000000000000, Some 10), (1672533900000000000, Some 10),
          (1672534800000000000, Some 20), (1672535700000000000, Some 20),
          (1672536600000000000, Some 20), (1672537500000000000, Some 20)]"
    by code_simp
  have slot: "(1672535700000000000, Some 20) \<in>
     set [(1672531200000000000, Some 10), (1672532100000000000, Some 10),
          (1672533000000000000, Some 10), (1672533900000000000, Some (10 :: real)),
          (1672534800000000000, Some 20), (1672535700000000000 :: int, Some 20),
          (1672536600000000000, Some 20), (1672537500000000000, Some 20)]"
    by simp
  from forward_fill_correct [OF ascending_insertion_sort run slot] ascending_insertion_sort run
  show ?thesis by blast
qed

text \<open>
  Claim C8: every slot of the resampled output whose start is strictly before the first
  matching observation's timestamp is unfilled or absent. In the output of
  \<^verbatim>\<open>plot_price\<close> no slot starts before the first matching observation \<open>t0\<close>, so such a
  slot is absent; and the fill gives no row to any instant before \<open>t0\<close>.
\<close>

theorem nothing_before_first_observation:
  assumes asc: "ascending_sort kind"
      and run: "plot_price kind day area data = Inr series"
      and lo: "index_min (map DateTime (selection day area data)) = Some t0"
      and slot: "(t, v) \<in> set series"
  shows "t0 \<le> t \<and> (t < t0 \<longrightarrow> v = None) \<and>
         (\<forall>u. u < t0 \<longrightarrow> pad (sort_values kind (selection day area data)) u = None)"
proof -
  from series_entry(1) [OF asc run lo slot] have ge: "t0 \<le> t" .
  have "pad (sort_values kind (selection day area data)) u = None" if "u < t0" for u
  proof (rule pad_None)
    show "\<forall>r\<in>set (sort_values kind (selection day area data)). u < DateTime r"
    proof
      fix r
      assume "r \<in> set (sort_values kind (selection day area data))"
      then have "r \<in> set (selection day area data)" by (simp add: set_sort_values [OF asc])
      with lo have "t0 \<le> DateTime r" by (rule index_min_lower)
      with that show "u < DateTime r" by simp
    qed
  qed
  with ge show ?thesis by simp
qed

theorem nothing_before_first_observation_witness:
  "ascending_sort insertion_sort \<and>
   index_min (map DateTime (selection ''2023-01-15'' ''NO3'' late_start_df)) =
     Some 1673758800000000000 \<and>
   plot_price insertion_sort ''2023-01-15'' ''NO3'' late_start_df =
     Inr [(1673758800000000000, Some 50.2), (1673759700000000000, Some 50.2),
          (1673760600000000000, Some 50.2), (1673761500000000000, Some 50.2)] \<and>
   (1673758800000000000 :: int) \<le> 1673759700000000000 \<and>
   pad (sort_values insertion_sort (selection ''2023-01-15'' ''NO3'' late_start_df))
     1673740800000000000 = None"
proof -
  have lo: "index_min (map DateTime (selection ''2023-01-15'' ''NO3'' late_start_df)) =
     Some 1673758800000000000"
    by code_simp
  have run: "plot_price insertion_sort ''2023-01-15'' ''NO3'' late_start_df =
     Inr [(1673758800000000000, Some 50.2), (1673759700000000000, Some 50.2),
          (1673760600000000000, Some 50.2), (1673761500000000000, Some 50.2)]"
    by code_simp
  have slot: "(1673759700000000000, Some 50.2) \<in>
     set [(1673758800000000000, Some 50.2), (1673759700000000000 :: int, Some (50.2 :: real)),
          (1673760600000000000, Some 50.2), (1673761500000000000, Some 50.2)]"
    by simp
  have early: "(1673740800000000000 :: int) < 1673758800000000000" by simp
  from nothing_before_first_observation [OF ascending_insertion_sort run lo slot]
    early lo run ascending_insertion_sort
  show ?thesis by blast
qed

section \<open>Where the grid ends\<close>

lemma pad_eq_SomeI:
  assumes srt: "sorted (map DateTime rs)" and dist: "distinct (map DateTime rs)"
      and mem: "r \<in> set rs" and le: "DateTime r \<le> t"
      and latest: "\<forall>r'\<in>set rs. DateTime r' \<le> t \<longrightarrow> DateTime r' \<le> DateTime r"
  shows "pad rs t = Some r"
proof -
  from pad_Some_ex [OF srt mem le] obtain r2 where r2: "pad rs t = Some r2" ..
  from pad_Some_latest [OF srt r2] have
    m2: "r2 \<in> set rs" and le2: "DateTime r2 \<le> t" and
    latest2: "\<forall>r'\<in>set rs. DateTime r' \<le> t \<longrightarrow> DateTime r' \<le> DateTime r2"
    by simp_all
  from latest m2 le2 have "DateTime r2 \<le> DateTime r" by blast
  moreover from latest2 mem le have "DateTime r \<le> DateTime r2" by blast
  ultimately have "DateTime r2 = DateTime r" by simp
  moreover from dist have "inj_on DateTime (set rs)" by (simp add: distinct_map)
  ultimately have "r2 = r" using m2 mem by (simp add: inj_on_def)
  with r2 show ?thesis by simp
qed

lemma date_range_aligned_tail:
  assumes "t0 \<le> t1" and "(t1 - t0) mod Timedelta_minutes 15 = 0"
  shows "drop (length (date_range t0 (t1 + Timedelta_minutes 59) (Timedelta_minutes 15)) - 4)
           (date_range t0 (t1 + Timedelta_minutes 59) (Timedelta_minutes 15)) =
         [t1, t1 + Timedelta_minutes 15, t1 + Timedelta_minutes 30, t1 + Timedelta_minutes 45]"
proof -
  let ?q = "Timedelta_minutes 15"
  let ?g = "date_range t0 (t1 + Timedelta_minutes 59) ?q"
  define m where "m = nat ((t1 - t0) div ?q)"
  have "0 \<le> (t1 - t0) div ?q"
    using assms(1) Timedelta_15_pos by (simp add: pos_imp_zdiv_nonneg_iff)
  then have im: "int m = (t1 - t0) div ?q" by (simp add: m_def)
  have "t1 - t0 = ((t1 - t0) div ?q) * ?q + (t1 - t0) mod ?q" by simp
  with assms(2) im have mq: "t1 = t0 + int m * ?q" by simp
  have d: "(t1 + Timedelta_minutes 59 - t0) div ?q = int m + 3"
    unfolding zdiv_eq_iff [OF Timedelta_15_pos] mq
    by (simp add: Timedelta_minutes_def algebra_simps)
  have le: "\<not> t1 + Timedelta_minutes 59 < t0"
    using assms(1) by (simp add: Timedelta_minutes_def)
  have n: "Suc (nat (int m + 3)) = m + 4" by simp
  have g: "?g = map (\<lambda>k. t0 + int k * ?q) [0 ..< m + 4]"
    using le unfolding date_range_def d n by (simp only: if_False)
  have "drop (length ?g - 4) ?g = map (\<lambda>k. t0 + int k * ?q) [m ..< m + 4]"
    unfolding g by (simp add: drop_map del: upt_Suc)
  also have "\<dots> = [t0 + int m * ?q, t0 + int (m + 1) * ?q, t0 + int (m + 2) * ?q,
                    t0 + int (m + 3) * ?q]"
    unfolding upt_four by simp
  also have "\<dots> = [t1, t1 + Timedelta_minutes 15, t1 + Timedelta_minutes 30,
                    t1 + Timedelta_minutes 45]"
    unfolding mq by (simp add: Timedelta_minutes_def algebra_simps)
  finally show ?thesis .
qed

lemma pad_after_last:
  assumes asc: "ascending_sort kind"
      and hi: "index_max (map DateTime rs) = Some t1"
      and dist: "distinct (map DateTime rs)"
      and mem: "r \<in> set rs" and at: "DateTime r = t1" and ge: "t1 \<le> t"
  shows "pad (sort_values kind rs) t = Some r"
proof (rule pad_eq_SomeI)
  show "sorted (map DateTime (sort_values kind rs))" using asc by (rule sorted_sort_values)
  show "distinct (map DateTime (sort_values kind rs))"
    using dist by (simp add: distinct_sort_values [OF asc])
  show "r \<in> set (sort_values kind rs)" using mem by (simp add: set_sort_values [OF asc])
  show "DateTime r \<le> t" using at ge by simp
  show "\<forall>r'\<in>set (sort_values kind rs). DateTime r' \<le> t \<longrightarrow> DateTime r' \<le> DateTime r"
    using index_max_upper [OF hi] at by (simp add: set_sort_values [OF asc])
qed

lemma plot_price_duplicates:
  assumes asc: "ascending_sort kind"
      and hi: "index_max (map DateTime (selection day area data)) = Some t1"
      and bound: "in_bounds (t1 + Timedelta_minutes 59)"
      and dup: "\<not> distinct (map DateTime (selection day area data))"
  shows "plot_price kind day area data = Inl Duplicate_labels"
  by (simp add: plot_price_def resample_duplicates [OF asc hi bound dup])

text \<open>
  Claim C10 says that for every non-empty filtered observation set the grid ends at the
  last 15-minute slot not after the last observation plus 59 minutes, so that the output
  always contains the slots of the last observation's hour. It fails where a timestamp
  repeats: for the two NO1 observations of the same instant there is no output,
  \<^verbatim>\<open>reindex\<close> raises on the duplicate labels.
\<close>

theorem repeated_timestamp_no_output:
  "length (selection ''2023-01-01'' ''NO1'' duplicate_df) = 2 \<and>
   plot_price insertion_sort ''2023-01-01'' ''NO1'' duplicate_df = Inl Duplicate_labels"
  by code_simp

text \<open>
  Claim C10, amended: for every non-empty filtered observation set whose last timestamp
  \<open>t1\<close> plus 59 minutes is still a timestamp that pandas can hold, the grid ends at the
  last 15-minute slot that is not after \<open>t1\<close> plus 59 minutes, and the number of slots
  follows from the observed span \<open>t1 - t0\<close>, it is not fixed at 96. When the matching
  timestamps are all different, the output has exactly the slots of this grid and every
  slot from \<open>t1\<close> on carries the last observed price; for input whose timestamps are a
  whole number of quarter hours apart, as hourly input is, the last four slots are
  \<open>t1\<close> and the three slots after it. When a timestamp repeats there is no output:
  \<^verbatim>\<open>plot_price\<close> fails on the duplicate labels.
\<close>

theorem grid_end_follows_last_observation:
  assumes asc: "ascending_sort kind"
      and lo: "index_min (map DateTime (selection day area data)) = Some t0"
      and hi: "index_max (map DateTime (selection day area data)) = Some t1"
      and bound: "in_bounds (t1 + Timedelta_minutes 59)"
  shows "\<exists>g. target_grid (sort_values kind (selection day area data)) = Inr g \<and> g \<noteq> [] \<and>
           last g \<le> t1 + Timedelta_minutes 59 \<and>
           t1 + Timedelta_minutes 59 < last g + Timedelta_minutes 15 \<and>
           length g = Suc (nat ((t1 - t0 + Timedelta_minutes 59) div Timedelta_minutes 15)) \<and>
           (\<not> distinct (map DateTime (selection day area data)) \<longrightarrow>
              plot_price kind day area data = Inl Duplicate_labels) \<and>
           (distinct (map DateTime (selection day area data)) \<longrightarrow>
             (\<exists>series. plot_price kind day area data = Inr series \<and> map fst series = g \<and>
                (\<forall>r\<in>set (selection day area data). DateTime r = t1 \<longrightarrow>
                   (\<forall>(t, v)\<in>set series. t1 \<le> t \<longrightarrow> v = Some (Price r)) \<and>
                   ((t1 - t0) mod Timedelta_minutes 15 = 0 \<longrightarrow>
                      drop (length series - 4) series =
                        [(t1, Some (Price r)),
                         (t1 + Timedelta_minutes 15, Some (Price r)),
                         (t1 + Timedelta_minutes 30, Some (Price r)),
                         (t1 + Timedelta_minutes 45, Some (Price r))]))))"
proof -
  let ?sel = "selection day area data"
  let ?q = "Timedelta_minutes 15"
  let ?g = "date_range t0 (t1 + Timedelta_minutes 59) ?q"
  let ?F = "\<lambda>t. (t, map_option Price (pad (sort_values kind ?sel) t))"
  have t01: "t0 \<le> t1" using lo hi by (rule index_min_le_max)
  then have le: "t0 \<le> t1 + Timedelta_minutes 59" by (simp add: Timedelta_minutes_def)
  have grid: "target_grid (sort_values kind ?sel) = Inr ?g"
    using lo hi bound
    by (simp add: target_grid_eq index_min_sort_values [OF asc] index_max_sort_values [OF asc])
  have dup: "plot_price kind day area data = Inl Duplicate_labels"
    if "\<not> distinct (map DateTime ?sel)"
    using asc hi bound that by (rule plot_price_duplicates)
  have ne: "?g \<noteq> []" using le by (rule date_range_ne)
  have end1: "last ?g \<le> t1 + Timedelta_minutes 59"
    using le Timedelta_15_pos by (rule last_date_range_bounds(1))
  have end2: "t1 + Timedelta_minutes 59 < last ?g + ?q"
    using le Timedelta_15_pos by (rule last_date_range_bounds(2))
  have len: "length ?g = Suc (nat ((t1 - t0 + Timedelta_minutes 59) div ?q))"
    using length_date_range [OF le, of ?q] by (simp add: algebra_simps)
  have out: "\<exists>series. plot_price kind day area data = Inr series \<and> map fst series = ?g \<and>
         (\<forall>r\<in>set ?sel. DateTime r = t1 \<longrightarrow>
            (\<forall>(t, v)\<in>set series. t1 \<le> t \<longrightarrow> v = Some (Price r)) \<and>
            ((t1 - t0) mod ?q = 0 \<longrightarrow>
               drop (length series - 4) series =
                 [(t1, Some (Price r)),
                  (t1 + Timedelta_minutes 15, Some (Price r)),
                  (t1 + Timedelta_minutes 30, Some (Price r)),
                  (t1 + Timedelta_minutes 45, Some (Price r))]))"
    if dist: "distinct (map DateTime ?sel)"
  proof -
    have run: "plot_price kind day area data = Inr (map ?F ?g)"
      using asc lo hi bound dist by (rule plot_price_eq)
    have fsts: "map fst (map ?F ?g) = ?g" by (simp add: comp_def)
    have last_price: "?F t = (t, Some (Price r))"
      if "r \<in> set ?sel" and "DateTime r = t1" and "t1 \<le> t" for r t
      using pad_after_last [OF asc hi dist that] by simp
    have tail: "drop (length (map ?F ?g) - 4) (map ?F ?g) =
                 [(t1, Some (Price r)),
                  (t1 + Timedelta_minutes 15, Some (Price r)),
                  (t1 + Timedelta_minutes 30, Some (Price r)),
                  (t1 + Timedelta_minutes 45, Some (Price r))]"
      if r: "r \<in> set ?sel" "DateTime r = t1" and al: "(t1 - t0) mod ?q = 0" for r
    proof -
      have "drop (length (map ?F ?g) - 4) (map ?F ?g) = map ?F (drop (length ?g - 4) ?g)"
        by (simp add: drop_map)
      also have "\<dots> = map ?F [t1, t1 + Timedelta_minutes 15, t1 + Timedelta_minutes 30,
                                t1 + Timedelta_minutes 45]"
        unfolding date_range_aligned_tail [OF t01 al] ..
      also have "\<dots> = [?F t1, ?F (t1 + Timedelta_minutes 15), ?F (t1 + Timedelta_minutes 30),
                        ?F (t1 + Timedelta_minutes 45)]"
        by simp
      also have "?F t1 = (t1, Some (Price r))"
        using r by (intro last_price) simp_all
      also have "?F (t1 + Timedelta_minutes 15) = (t1 + Timedelta_minutes 15, Some (Price r))"
        using r by (intro last_price) (simp_all add: Timedelta_minutes_def)
      also have "?F (t1 + Timedelta_minutes 30) = (t1 + Timedelta_minutes 30, Some (Price r))"
        using r by (intro last_price) (simp_all add: Timedelta_minutes_def)
      also have "?F (t1 + Timedelta_minutes 45) = (t1 + Timedelta_minutes 45, Some (Price r))"
        using r by (intro last_price) (simp_all add: Timedelta_minutes_def)
      finally show ?thesis .
    qed
    have after: "\<forall>(t, v)\<in>set (map ?F ?g). t1 \<le> t \<longrightarrow> v = Some (Price r)"
      if r: "r \<in> set ?sel" "DateTime r = t1" for r
      using last_price [OF r] by auto
    from run fsts after tail show ?thesis by blast
  qed
  from grid ne end1 end2 len dup out show ?thesis by blast
qed


theorem grid_end_follows_last_observation_witness:
  "ascending_sort insertion_sort \<and>
   index_min (map DateTime (selection ''2023-01-01'' ''NO1'' sample_df)) = Some 1672531200000000000 \<and>
   index_max (map DateTime (selection ''2023-01-01'' ''NO1'' sample_df)) = Some 1672534800000000000 \<and>
   in_bounds (1672534800000000000 + Timedelta_minutes 59) \<and>
   distinct (map DateTime (selection ''2023-01-01'' ''NO1'' sample_df)) \<and>
   (\<exists>g series.
      target_grid (sort_values insertion_sort (selection ''2023-01-01'' ''NO1'' sample_df)) =
        Inr g \<and>
      last g \<le> 1672534800000000000 + Timedelta_minutes 59 \<and>
      1672534800000000000 + Timedelta_minutes 59 < last g + Timedelta_minutes 15 \<and>
      plot_price insertion_sort ''2023-01-01'' ''NO1'' sample_df = Inr series \<and>
      map fst series = g \<and>
      drop (length series - 4) series =
        [(1672534800000000000, Some 20),
         (1672534800000000000 + Timedelta_minutes 15, Some 20),
         (1672534800000000000 + Timedelta_minutes 30, Some 20),
         (1672534800000000000 + Timedelta_minutes 45, Some 20)])"
proof -
  let ?sel = "selection ''2023-01-01'' ''NO1'' sample_df"
  let ?t1 = "1672534800000000000 :: int"
  let ?r = "\<lparr>DateTime = ?t1, MapCode = ''NO1'', Price = 20, Day = ''2023-01-01''\<rparr>"
  let ?tail = "\<lambda>p :: real. [(?t1, Some p), (?t1 + Timedelta_minutes 15, Some p),
                 (?t1 + Timedelta_minutes 30, Some p), (?t1 + Timedelta_minutes 45, Some p)]"
  let ?aligned = "(?t1 - 1672531200000000000) mod Timedelta_minutes 15 = 0"
  have lo: "index_min (map DateTime ?sel) = Some 1672531200000000000"
    by code_simp
  have hi: "index_max (map DateTime ?sel) = Some ?t1"
    by code_simp
  have bound: "in_bounds (?t1 + Timedelta_minutes 59)"
    by (simp add: in_bounds_def Timestamp_min_def Timestamp_max_def Timedelta_minutes_def)
  have dist: "distinct (map DateTime ?sel)"
    by code_simp
  have mem: "?r \<in> set ?sel"
    by code_simp
  have at: "DateTime ?r = ?t1"
    by simp
  have price: "Price ?r = 20"
    by simp
  have aligned: ?aligned
    by (simp add: Timedelta_minutes_def)
  from grid_end_follows_last_observation [OF ascending_insertion_sort lo hi bound]
  obtain g where
    grid: "target_grid (sort_values insertion_sort ?sel) = Inr g" and
    end1: "last g \<le> ?t1 + Timedelta_minutes 59" and
    end2: "?t1 + Timedelta_minutes 59 < last g + Timedelta_minutes 15" and
    out: "distinct (map DateTime ?sel) \<longrightarrow>
      (\<exists>series. plot_price insertion_sort ''2023-01-01'' ''NO1'' sample_df = Inr series \<and>
         map fst series = g \<and>
         (\<forall>r\<in>set ?sel. DateTime r = ?t1 \<longrightarrow>
            (\<forall>(t, v)\<in>set series. ?t1 \<le> t \<longrightarrow> v = Some (Price r)) \<and>
            (?aligned \<longrightarrow> drop (length series - 4) series = ?tail (Price r))))"
    by (elim exE conjE) (rule that)
  from out dist have
    "\<exists>series. plot_price insertion_sort ''2023-01-01'' ''NO1'' sample_df = Inr series \<and>
         map fst series = g \<and>
         (\<forall>r\<in>set ?sel. DateTime r = ?t1 \<longrightarrow>
            (\<forall>(t, v)\<in>set series. ?t1 \<le> t \<longrightarrow> v = Some (Price r)) \<and>
            (?aligned \<longrightarrow> drop (length series - 4) series = ?tail (Price r)))"
    by (rule mp)
  then obtain series where
    run: "plot_price insertion_sort ''2023-01-01'' ''NO1'' sample_df = Inr series" and
    fsts: "map fst series = g" and
    rest: "\<forall>r\<in>set ?sel. DateTime r = ?t1 \<longrightarrow>
            (\<forall>(t, v)\<in>set series. ?t1 \<le> t \<longrightarrow> v = Some (Price r)) \<and>
            (?aligned \<longrightarrow> drop (length series - 4) series = ?tail (Price r))"
    by (elim exE conjE) (rule that)
  from rest mem have "DateTime ?r = ?t1 \<longrightarrow>
            (\<forall>(t, v)\<in>set series. ?t1 \<le> t \<longrightarrow> v = Some (Price ?r)) \<and>
            (?aligned \<longrightarrow> drop (length series - 4) series = ?tail (Price ?r))"
    by (rule bspec)
  from this at have "(\<forall>(t, v)\<in>set series. ?t1 \<le> t \<longrightarrow> v = Some (Price ?r)) \<and>
            (?aligned \<longrightarrow> drop (length series - 4) series = ?tail (Price ?r))"
    by (rule mp)
  then have "?aligned \<longrightarrow> drop (length series - 4) series = ?tail (Price ?r)"
    by (rule conjunct2)
  from this aligned have "drop (length series - 4) series = ?tail (Price ?r)"
    by (rule mp)
  then have tail: "drop (length series - 4) series = ?tail 20"
    unfolding price .
  show ?thesis
    using ascending_insertion_sort lo hi bound dist grid end1 end2 run fsts tail
    by (intro conjI exI)
qed

section \<open>The interval labels of the table\<close>

lemma length_shift_back: "length (shift_back xs) = length xs"
  by (cases xs) (simp_all add: shift_back_def)

lemma nth_shift_back:
  assumes "i < length xs"
  shows "shift_back xs ! i = (if Suc i < length xs then Some (xs ! Suc i) else None)"
proof (cases "Suc i < length xs")
  case True
  then have "i < length (tl xs)" by simp
  then have "shift_back xs ! i = Some (tl xs ! i)"
    by (simp add: shift_back_def nth_append)
  with True show ?thesis by (simp add: nth_tl)
next
  case False
  with assms have "i = length (tl xs)" and "xs \<noteq> []" by auto
  then have "shift_back xs ! i = None"
    by (simp add: shift_back_def nth_append)
  with False show ?thesis by simp
qed

lemma length_mtu_table: "length (mtu_table sub) = length sub"
  by (simp add: mtu_table_def Let_def length_shift_back)

lemma nth_mtu_table:
  assumes "i < length sub"
  shows "mtu_table sub ! i =
         (strftime_HM (DateTime (sub ! i)) @ '' - '' @
            (if Suc i < length sub then strftime_HM (DateTime (sub ! Suc i)) else ''00:00''),
          Price (sub ! i))"
  using assms
  by (simp add: mtu_table_def Let_def length_shift_back nth_shift_back fillna_def)

text \<open>
  Claim C6: for every selection whose table has \<open>N\<close> rows, the MTU label of row \<open>i\<close> is
  the row's time, the separator \<open>" - "\<close> and the next row's time for all \<open>i < N - 1\<close>, and
  the label of the last row pairs its time with \<open>"00:00"\<close>. The rows of the table are the
  matching observations in ascending order of their timestamps, and a row's time is its
  timestamp written as hours and minutes. This holds whatever order the sort leaves among
  rows of equal timestamp: the timestamps of the rows are the sorted timestamps of the
  matching observations.
\<close>

theorem update_table_labels:
  assumes asc: "ascending_sort kind"
  shows
  "length (update_table kind day area data) = length (selection day area data) \<and>
   (\<forall>i. Suc i < length (update_table kind day area data) \<longrightarrow>
      fst (update_table kind day area data ! i) =
        strftime_HM (DateTime (sort_values kind (selection day area data) ! i)) @ '' - '' @
        strftime_HM (DateTime (sort_values kind (selection day area data) ! Suc i))) \<and>
   (update_table kind day area data \<noteq> [] \<longrightarrow>
      fst (last (update_table kind day area data)) =
        strftime_HM (DateTime (last (sort_values kind (selection day area data)))) @ '' - '' @ ''00:00'') \<and>
   map snd (update_table kind day area data) =
     map Price (sort_values kind (selection day area data)) \<and>
   map DateTime (sort_values kind (selection day area data)) =
     sort (map DateTime (selection day area data))"
proof -
  let ?sub = "sort_values kind (selection day area data)"
  let ?tab = "update_table kind day area data"
  have tab: "?tab = mtu_table ?sub" by (simp add: update_table_def)
  have len: "length ?tab = length ?sub" by (simp add: tab length_mtu_table)
  have inner: "fst (?tab ! i) =
        strftime_HM (DateTime (?sub ! i)) @ '' - '' @ strftime_HM (DateTime (?sub ! Suc i))"
    if "Suc i < length ?tab" for i
  proof -
    from that len have "Suc i < length ?sub" and "i < length ?sub" by simp_all
    then show ?thesis by (simp add: tab nth_mtu_table)
  qed
  have final: "fst (last ?tab) =
        strftime_HM (DateTime (last ?sub)) @ '' - '' @ ''00:00''"
    if "?tab \<noteq> []"
  proof -
    from that len have ne: "?sub \<noteq> []" by auto
    then have i: "length ?sub - 1 < length ?sub" by simp
    have "last ?tab = ?tab ! (length ?sub - 1)"
      using that len by (simp add: last_conv_nth)
    also have "\<dots> = (strftime_HM (DateTime (?sub ! (length ?sub - 1))) @ '' - '' @ ''00:00'',
                      Price (?sub ! (length ?sub - 1)))"
    proof -
      have "\<not> Suc (length ?sub - 1) < length ?sub" by simp
      then show ?thesis
        unfolding tab nth_mtu_table [OF i] by (simp only: if_False)
    qed
    finally show ?thesis using ne by (simp add: last_conv_nth)
  qed
  have prices: "map snd ?tab = map Price ?sub"
    unfolding tab
    by (rule nth_equalityI) (simp_all add: length_mtu_table nth_mtu_table)
  have times: "map DateTime ?sub = sort (map DateTime (selection day area data))"
  proof (rule properties_for_sort [symmetric])
    show "mset (map DateTime ?sub) = mset (map DateTime (selection day area data))"
      using mset_sort_values [OF asc, of "selection day area data"] by (metis mset_map)
    show "sorted (map DateTime ?sub)" using asc by (rule sorted_sort_values)
  qed
  from len inner final prices times show ?thesis
    by (simp add: length_sort_values [OF asc])
qed

theorem update_table_labels_witness:
  "ascending_sort insertion_sort \<and>
   Suc 0 < length (update_table insertion_sort ''2023-01-01'' ''NO1'' sample_df) \<and>
   update_table insertion_sort ''2023-01-01'' ''NO1'' sample_df =
     [(''00:00 - 01:00'', 10), (''01:00 - 00:00'', 20)] \<and>
   fst (update_table insertion_sort ''2023-01-01'' ''NO1'' sample_df ! 0) =
     strftime_HM (DateTime (sort_values insertion_sort (selection ''2023-01-01'' ''NO1'' sample_df) ! 0)) @
     '' - '' @
     strftime_HM (DateTime (sort_values insertion_sort (selection ''2023-01-01'' ''NO1'' sample_df) ! Suc 0)) \<and>
   fst (last (update_table insertion_sort ''2023-01-01'' ''NO1'' sample_df)) =
     strftime_HM (DateTime (last (sort_values insertion_sort (selection ''2023-01-01'' ''NO1'' sample_df)))) @
     '' - '' @ ''00:00''"
proof -
  have tab: "update_table insertion_sort ''2023-01-01'' ''NO1'' sample_df =
     [(''00:00 - 01:00'', 10), (''01:00 - 00:00'', 20)]"
    by code_simp
  then have two: "Suc 0 < length (update_table insertion_sort ''2023-01-01'' ''NO1'' sample_df)"
    and ne: "update_table insertion_sort ''2023-01-01'' ''NO1'' sample_df \<noteq> []"
    by simp_all
  note labels = update_table_labels
    [OF ascending_insertion_sort, of "''2023-01-01''" "''NO1''" sample_df]
  from labels two have first:
    "fst (update_table insertion_sort ''2023-01-01'' ''NO1'' sample_df ! 0) =
     strftime_HM (DateTime (sort_values insertion_sort (selection ''2023-01-01'' ''NO1'' sample_df) ! 0)) @
     '' - '' @
     strftime_HM (DateTime (sort_values insertion_sort (selection ''2023-01-01'' ''NO1'' sample_df) ! Suc 0))"
    by blast
  from labels ne have final:
    "fst (last (update_table insertion_sort ''2023-01-01'' ''NO1'' sample_df)) =
     strftime_HM (DateTime (last (sort_values insertion_sort (selection ''2023-01-01'' ''NO1'' sample_df)))) @
     '' - '' @ ''00:00''"
    by blast
  show ?thesis
    using ascending_insertion_sort two tab first final by (intro conjI)
qed

section \<open>The loaded dataframe is not changed\<close>

lemma plot_price_st_store:
  "snd (plot_price_st kind day area data s) =
     s @ [(s ! data)\<lparr>frame_rows := selection day area (frame_rows (s ! data))\<rparr>,
          (s ! data)\<lparr>frame_rows := sort_values kind (selection day area (frame_rows (s ! data))),
                      frame_index := Some ''DateTime''\<rparr>]"
  by (simp add: plot_price_st_def getitem_mask_def copy_frame_def new_object_def
      sort_values_inplace_def set_index_inplace_def selection_def nth_append list_update_append Let_def
      split: sum.splits)

lemma update_table_st_store:
  "snd (update_table_st kind day area data s) =
     s @ [(s ! data)\<lparr>frame_rows := selection day area (frame_rows (s ! data))\<rparr>,
          (s ! data)\<lparr>frame_rows := sort_values kind (selection day area (frame_rows (s ! data)))\<rparr>]"
  by (simp add: update_table_st_def getitem_mask_def copy_frame_def new_object_def
      sort_values_inplace_def selection_def nth_append list_update_append Let_def)

lemma plot_price_st_result:
  "fst (plot_price_st kind day area data s) = plot_price kind day area (frame_rows (s ! data))"
  by (simp add: plot_price_st_def getitem_mask_def copy_frame_def new_object_def
      sort_values_inplace_def set_index_inplace_def selection_def nth_append list_update_append Let_def
      plot_price_def resample_def
      split: sum.splits)

lemma update_table_st_result:
  "fst (update_table_st kind day area data s) = update_table kind day area (frame_rows (s ! data))"
  by (simp add: update_table_st_def getitem_mask_def copy_frame_def new_object_def
      sort_values_inplace_def selection_def nth_append list_update_append update_table_def Let_def)

text \<open>
  Claim C9: the loaded dataset is immutable with respect to the queries: for every day
  and area, calling \<^verbatim>\<open>plot_price\<close> and \<^verbatim>\<open>update_table\<close> leaves the dataframe \<^verbatim>\<open>df\<close>
  unchanged. In the store, \<open>data\<close> is the address of the dataframe passed in; after
  either call the dataframe at that address, and every other dataframe that existed
  before the call, is what it was, whether the call returns or raises. The results are
  those of the functions on values.
\<close>

theorem queries_leave_df_unchanged:
  assumes "data < length s"
  shows "snd (plot_price_st kind day area data s) ! data = s ! data \<and>
         take (length s) (snd (plot_price_st kind day area data s)) = s \<and>
         snd (update_table_st kind day area data s) ! data = s ! data \<and>
         take (length s) (snd (update_table_st kind day area data s)) = s \<and>
         fst (plot_price_st kind day area data s) = plot_price kind day area (frame_rows (s ! data)) \<and>
         fst (update_table_st kind day area data s) = update_table kind day area (frame_rows (s ! data))"
  using assms
  by (simp add: plot_price_st_store update_table_st_store plot_price_st_result
      update_table_st_result nth_append)

theorem queries_leave_df_unchanged_witness:
  "(0 :: nat) < length [\<lparr>frame_index = None, frame_rows = sample_df\<rparr>] \<and>
   snd (plot_price_st insertion_sort ''2023-01-01'' ''NO1'' 0 [\<lparr>frame_index = None, frame_rows = sample_df\<rparr>]) ! 0 =
     \<lparr>frame_index = None, frame_rows = sample_df\<rparr> \<and>
   snd (update_table_st insertion_sort ''2023-01-01'' ''NO1'' 0 [\<lparr>frame_index = None, frame_rows = sample_df\<rparr>]) ! 0 =
     \<lparr>frame_index = None, frame_rows = sample_df\<rparr> \<and>
   snd (plot_price_st insertion_sort ''2023-01-02'' ''NO2'' 0 [\<lparr>frame_index = None, frame_rows = sample_df\<rparr>]) ! 0 =
     \<lparr>frame_index = None, frame_rows = sample_df\<rparr>"
proof -
  let ?s = "[\<lparr>frame_index = None, frame_rows = sample_df\<rparr>]"
  have live: "(0 :: nat) < length ?s" by simp
  from queries_leave_df_unchanged [OF live, of insertion_sort "''2023-01-01''" "''NO1''"]
  have a: "snd (plot_price_st insertion_sort ''2023-01-01'' ''NO1'' 0 ?s) ! 0 = ?s ! 0"
    and b: "snd (update_table_st insertion_sort ''2023-01-01'' ''NO1'' 0 ?s) ! 0 = ?s ! 0"
    by simp_all
  from queries_leave_df_unchanged [OF live, of insertion_sort "''2023-01-02''" "''NO2''"]
  have c: "snd (plot_price_st insertion_sort ''2023-01-02'' ''NO2'' 0 ?s) ! 0 = ?s ! 0"
    by simp
  from live a b c show ?thesis by simp
qed

section \<open>Resampling a series that is already spaced at 15 minutes\<close>

lemma quarter_nth:
  assumes "map DateTime rs = map (\<lambda>k. t0 + int k * Timedelta_minutes 15) [0 ..< length rs]"
      and "i < length rs"
  shows "DateTime (rs ! i) = t0 + int i * Timedelta_minutes 15"
proof -
  from assms(2) have "DateTime (rs ! i) = map DateTime rs ! i" by simp
  also have "\<dots> = map (\<lambda>k. t0 + int k * Timedelta_minutes 15) [0 ..< length rs] ! i"
    by (simp only: assms(1))
  also have "\<dots> = t0 + int i * Timedelta_minutes 15"
    using assms(2) by simp
  finally show ?thesis .
qed

lemma quarter_le_iff:
  "t0 + int i * Timedelta_minutes 15 \<le> t0 + int j * Timedelta_minutes 15 \<longleftrightarrow> i \<le> j"
  by (simp add: Timedelta_minutes_def)

lemma quarter_sorted:
  assumes "map DateTime rs = map (\<lambda>k. t0 + int k * Timedelta_minutes 15) [0 ..< length rs]"
  shows "sorted (map DateTime rs)"
  unfolding assms
  by (simp add: sorted_iff_nth_mono Timedelta_minutes_def del: upt_Suc)

lemma quarter_distinct:
  assumes "map DateTime rs = map (\<lambda>k. t0 + int k * Timedelta_minutes 15) [0 ..< length rs]"
  shows "distinct (map DateTime rs)"
  unfolding assms
  by (simp add: distinct_map inj_on_def Timedelta_minutes_def del: upt_Suc)

lemma quarter_index_min:
  assumes ts: "map DateTime rs = map (\<lambda>k. t0 + int k * Timedelta_minutes 15) [0 ..< length rs]"
      and ne: "rs \<noteq> []"
  shows "index_min (map DateTime rs) = Some t0"
proof -
  have "Min (set (map DateTime rs)) = t0"
  proof (rule Min_eqI)
    show "finite (set (map DateTime rs))" by simp
    show "t0 \<le> y" if "y \<in> set (map DateTime rs)" for y
    proof -
      from that obtain i where "i < length rs" and "y = DateTime (rs ! i)"
        by (auto simp: in_set_conv_nth)
      with quarter_nth [OF ts] have "y = t0 + int i * Timedelta_minutes 15" by simp
      then show ?thesis by (simp add: Timedelta_minutes_def)
    qed
    from ne have "0 < length rs" by simp
    with quarter_nth [OF ts] have "DateTime (rs ! 0) = t0" by fastforce
    with ne show "t0 \<in> set (map DateTime rs)"
      by (metis length_greater_0_conv length_map nth_map nth_mem)
  qed
  with ne show ?thesis by (simp add: index_min_Some_iff)
qed

lemma quarter_index_max:
  assumes ts: "map DateTime rs = map (\<lambda>k. t0 + int k * Timedelta_minutes 15) [0 ..< length rs]"
      and ne: "rs \<noteq> []"
  shows "index_max (map DateTime rs) = Some (t0 + int (length rs - 1) * Timedelta_minutes 15)"
proof -
  let ?n = "length rs"
  from ne have last_i: "?n - 1 < ?n" by simp
  have "Max (set (map DateTime rs)) = t0 + int (?n - 1) * Timedelta_minutes 15"
  proof (rule Max_eqI)
    show "finite (set (map DateTime rs))" by simp
    show "y \<le> t0 + int (?n - 1) * Timedelta_minutes 15" if "y \<in> set (map DateTime rs)" for y
    proof -
      from that obtain i where i: "i < ?n" and "y = DateTime (rs ! i)"
        by (auto simp: in_set_conv_nth)
      with quarter_nth [OF ts] have "y = t0 + int i * Timedelta_minutes 15" by simp
      moreover from i have "i \<le> ?n - 1" by simp
      ultimately show ?thesis by (simp only: quarter_le_iff)
    qed
    from quarter_nth [OF ts last_i]
    have "DateTime (rs ! (?n - 1)) = t0 + int (?n - 1) * Timedelta_minutes 15" .
    with last_i show "t0 + int (?n - 1) * Timedelta_minutes 15 \<in> set (map DateTime rs)"
      by (metis length_map nth_map nth_mem)
  qed
  with ne show ?thesis by (simp add: index_max_Some_iff)
qed

lemma quarter_pad:
  assumes ts: "map DateTime rs = map (\<lambda>k. t0 + int k * Timedelta_minutes 15) [0 ..< length rs]"
      and ne: "rs \<noteq> []"
  shows "pad rs (t0 + int j * Timedelta_minutes 15) = Some (rs ! min j (length rs - 1))"
proof (rule pad_eq_SomeI)
  let ?n = "length rs"
  let ?m = "min j (?n - 1)"
  from ne have "0 < ?n" by simp
  then have m: "?m < ?n" by linarith
  show "sorted (map DateTime rs)" using ts by (rule quarter_sorted)
  show "distinct (map DateTime rs)" using ts by (rule quarter_distinct)
  show "rs ! ?m \<in> set rs" using m by simp
  have at: "DateTime (rs ! ?m) = t0 + int ?m * Timedelta_minutes 15"
    using ts m by (rule quarter_nth)
  show "DateTime (rs ! ?m) \<le> t0 + int j * Timedelta_minutes 15"
    unfolding at quarter_le_iff by simp
  show "\<forall>r'\<in>set rs. DateTime r' \<le> t0 + int j * Timedelta_minutes 15 \<longrightarrow>
          DateTime r' \<le> DateTime (rs ! ?m)"
  proof (intro ballI impI)
    fix r'
    assume "r' \<in> set rs" and le: "DateTime r' \<le> t0 + int j * Timedelta_minutes 15"
    then obtain i where i: "i < ?n" and r': "r' = rs ! i"
      by (auto simp: in_set_conv_nth)
    have ati: "DateTime r' = t0 + int i * Timedelta_minutes 15"
      unfolding r' using ts i by (rule quarter_nth)
    from le have "i \<le> j" unfolding ati quarter_le_iff .
    with i have "i \<le> ?m" by simp
    then show "DateTime r' \<le> DateTime (rs ! ?m)"
      unfolding ati at quarter_le_iff .
  qed
qed

lemma quarter_date_range:
  assumes "0 < n"
  shows "date_range t0 (t0 + int (n - 1) * Timedelta_minutes 15 + Timedelta_minutes 59)
           (Timedelta_minutes 15) =
         map (\<lambda>k. t0 + int k * Timedelta_minutes 15) [0 ..< n + 3]"
proof -
  let ?q = "Timedelta_minutes 15"
  let ?stop = "t0 + int (n - 1) * ?q + Timedelta_minutes 59"
  have le: "\<not> ?stop < t0" by (simp add: Timedelta_minutes_def)
  have d: "(?stop - t0) div ?q = int (n - 1) + 3"
    unfolding zdiv_eq_iff [OF Timedelta_15_pos]
    by (simp add: Timedelta_minutes_def algebra_simps)
  have n: "Suc (nat (int (n - 1) + 3)) = n + 3" using assms by simp
  show ?thesis
    using le unfolding date_range_def d n by (simp only: if_False)
qed

lemma sort_values_unique:
  assumes asc: "ascending_sort kind"
      and srt: "sorted (map DateTime rows)"
      and dist: "distinct (map DateTime rows)"
  shows "sort_values kind rows = rows"
proof -
  let ?ys = "sort_values kind rows"
  have keys: "mset (map DateTime ?ys) = mset (map DateTime rows)"
    using mset_sort_values [OF asc, of rows] by (metis mset_map)
  have "sort (map DateTime rows) = map DateTime ?ys"
    using keys sorted_sort_values [OF asc] by (rule properties_for_sort)
  moreover have "sort (map DateTime rows) = map DateTime rows"
    using srt by (simp add: sorted_sort_id)
  ultimately have same: "map DateTime ?ys = map DateTime rows" by simp
  from dist have "inj_on DateTime (set rows)" by (simp add: distinct_map)
  then have "inj_on DateTime (set ?ys \<union> set rows)"
    by (simp add: set_sort_values [OF asc])
  then show ?thesis using same by (simp add: inj_on_map_eq_map)
qed

lemma quarter_selection:
  assumes "\<forall>r\<in>set data. MapCode r = area \<and> Day r = day"
  shows "selection day area data = data"
  using assms by (simp add: selection_def)

lemma quarter_plot_price:
  assumes asc: "ascending_sort kind"
      and ne: "data \<noteq> []"
      and all: "\<forall>r\<in>set data. MapCode r = area \<and> Day r = day"
      and ts: "map DateTime data =
                 map (\<lambda>k. t0 + int k * Timedelta_minutes 15) [0 ..< length data]"
      and bound: "in_bounds (t0 + int (length data - 1) * Timedelta_minutes 15 +
                    Timedelta_minutes 59)"
  shows "plot_price kind day area data =
         Inr (map (\<lambda>k. (t0 + int k * Timedelta_minutes 15,
                          Some (Price (data ! min k (length data - 1)))))
               [0 ..< length data + 3])"
proof -
  let ?n = "length data"
  have sel: "selection day area data = data" using all by (rule quarter_selection)
  have srt: "sort_values kind data = data"
    using asc quarter_sorted [OF ts] quarter_distinct [OF ts] by (rule sort_values_unique)
  have lo: "index_min (map DateTime (selection day area data)) = Some t0"
    unfolding sel using ts ne by (rule quarter_index_min)
  have hi: "index_max (map DateTime (selection day area data)) =
            Some (t0 + int (?n - 1) * Timedelta_minutes 15)"
    unfolding sel using ts ne by (rule quarter_index_max)
  have dist: "distinct (map DateTime (selection day area data))"
    unfolding sel using ts by (rule quarter_distinct)
  from ne have pos: "0 < ?n" by simp
  show ?thesis
    unfolding plot_price_eq [OF asc lo hi bound dist] quarter_date_range [OF pos] sel srt
    by (simp add: quarter_pad [OF ts ne] del: upt_Suc)
qed

lemma quarter_plot_price_length:
  assumes "ascending_sort kind"
      and "data \<noteq> []"
      and "\<forall>r\<in>set data. MapCode r = area \<and> Day r = day"
      and "map DateTime data =
             map (\<lambda>k. t0 + int k * Timedelta_minutes 15) [0 ..< length data]"
      and "in_bounds (t0 + int (length data - 1) * Timedelta_minutes 15 +
             Timedelta_minutes 59)"
  shows "map_sum id length (plot_price kind day area data) = Inr (length data + 3)"
  unfolding quarter_plot_price [OF assms] by simp


lemma upt_three: "[m ..< m + 3] = [m, m + 1, m + 2]"
  by (simp add: upt_conv_Cons)

lemma date_str_2023_01_15:
  assumes "0 \<le> d" and "d < ns_per_day"
  shows "date_str (1673740800000000000 + d) = ''2023-01-15''"
proof -
  have pos: "0 < ns_per_day" by (simp add: ns_per_day_def)
  have "(1673740800000000000 + d) div ns_per_day = 19372"
    unfolding zdiv_eq_iff [OF pos] using assms by (simp add: ns_per_day_def)
  moreover have "(1673740800000000000 :: int) div ns_per_day = 19372"
    by (simp add: ns_per_day_def)
  ultimately have "date_str (1673740800000000000 + d) = date_str 1673740800000000000"
    unfolding date_str_def by (simp only:)
  also have "\<dots> = ''2023-01-15''" by code_simp
  finally show ?thesis .
qed

lemma quarter_hour_df_rows:
  "quarter_hour_df =
     map (\<lambda>k. \<lparr>DateTime = 1673740800000000000 + int k * Timedelta_minutes 15,
                MapCode = ''NO3'', Price = real k, Day = ''2023-01-15''\<rparr>) [0 ..< 96]"
proof -
  let ?raw = "\<lambda>k. \<lparr>DateTime = 1673740800000000000 + int k * Timedelta_minutes 15,
                     MapCode = ''NO3'', Price = real k\<rparr>"
  have keep: "filter (\<lambda>r. MapCode r \<in> set norwegian_zones) (map ?raw [0 ..< 96]) =
              map ?raw [0 ..< 96]"
    by (simp add: filter_map comp_def norwegian_zones_def del: upt_Suc)
  have day: "add_Day (?raw k) =
       \<lparr>DateTime = 1673740800000000000 + int k * Timedelta_minutes 15,
        MapCode = ''NO3'', Price = real k, Day = ''2023-01-15''\<rparr>"
    if "k \<in> set [0 ..< 96]" for k
  proof -
    from that have "k < 96" by simp
    then have "0 \<le> int k * Timedelta_minutes 15" and "int k * Timedelta_minutes 15 < ns_per_day"
      by (simp_all add: Timedelta_minutes_def ns_per_day_def)
    then have "date_str (1673740800000000000 + int k * Timedelta_minutes 15) = ''2023-01-15''"
      by (rule date_str_2023_01_15)
    then show ?thesis by (simp add: add_Day_def)
  qed
  have "quarter_hour_df = map add_Day (map ?raw [0 ..< 96])"
    unfolding quarter_hour_df_def load_df_def keep ..
  also have "\<dots> = map (\<lambda>k. add_Day (?raw k)) [0 ..< 96]"
    by (simp only: map_map comp_def)
  also have "\<dots> = map (\<lambda>k. \<lparr>DateTime = 1673740800000000000 + int k * Timedelta_minutes 15,
                MapCode = ''NO3'', Price = real k, Day = ''2023-01-15''\<rparr>) [0 ..< 96]"
    using day by (rule map_cong [OF refl])
  finally show ?thesis .
qed

lemma quarter_hour_df_length: "length quarter_hour_df = 96"
  unfolding quarter_hour_df_rows by simp

lemma quarter_hour_df_ne: "quarter_hour_df \<noteq> []"
  using quarter_hour_df_length by auto

lemma quarter_hour_df_match:
  "\<forall>r\<in>set quarter_hour_df. MapCode r = ''NO3'' \<and> Day r = ''2023-01-15''"
  unfolding quarter_hour_df_rows by (auto simp del: upt_Suc)

lemma quarter_hour_df_times:
  "map DateTime quarter_hour_df =
     map (\<lambda>k. 1673740800000000000 + int k * Timedelta_minutes 15) [0 ..< length quarter_hour_df]"
  unfolding quarter_hour_df_length
  unfolding quarter_hour_df_rows by (simp add: comp_def del: upt_Suc)

text \<open>
  Claim C5 says that resampling an input that already is a 96-slot series spaced at 15
  minutes over one calendar day returns it unchanged, with no slot added or removed. It
  fails for the 96 quarter-hour observations of NO3 on 2023-01-15: the output has 99
  slots.
\<close>

lemma quarter_hour_df_bound:
  "in_bounds (1673740800000000000 + int (length quarter_hour_df - 1) * Timedelta_minutes 15 +
     Timedelta_minutes 59)"
  unfolding quarter_hour_df_length
  by (simp add: in_bounds_def Timestamp_min_def Timestamp_max_def Timedelta_minutes_def)

theorem quarter_hour_day_grows:
  "length (selection ''2023-01-15'' ''NO3'' quarter_hour_df) = 96 \<and>
   map_sum id length (plot_price insertion_sort ''2023-01-15'' ''NO3'' quarter_hour_df) = Inr 99"
proof -
  have "selection ''2023-01-15'' ''NO3'' quarter_hour_df = quarter_hour_df"
    using quarter_hour_df_match by (rule quarter_selection)
  then have "length (selection ''2023-01-15'' ''NO3'' quarter_hour_df) = 96"
    by (simp add: quarter_hour_df_length)
  moreover have
    "map_sum id length (plot_price insertion_sort ''2023-01-15'' ''NO3'' quarter_hour_df) =
       Inr (length quarter_hour_df + 3)"
    using ascending_insertion_sort quarter_hour_df_ne quarter_hour_df_match
      quarter_hour_df_times quarter_hour_df_bound
    by (rule quarter_plot_price_length)
  ultimately show ?thesis by (simp add: quarter_hour_df_length)
qed

text \<open>
  Claim C5, amended: resampling an input that already is a series spaced at 15 minutes
  (96 slots over one calendar day, or any other positive number of slots), all of the
  selected area and day, and with its last timestamp plus 59 minutes still a timestamp
  that pandas can hold, returns the slots of the input with their prices, in order,
  followed by three more slots, 15, 30 and 45 minutes after the last one, that repeat
  the last price. No slot is removed and no price is changed, but three slots are added.
\<close>

theorem quarter_hour_series_extended:
  assumes asc: "ascending_sort kind"
      and ne: "data \<noteq> []"
      and all: "\<forall>r\<in>set data. MapCode r = area \<and> Day r = day"
      and ts: "map DateTime data =
                 map (\<lambda>k. t0 + int k * Timedelta_minutes 15) [0 ..< length data]"
      and bound: "in_bounds (DateTime (last data) + Timedelta_minutes 59)"
  shows "plot_price kind day area data =
         Inr (map (\<lambda>r. (DateTime r, Some (Price r))) data @
              [(DateTime (last data) + Timedelta_minutes 15, Some (Price (last data))),
               (DateTime (last data) + Timedelta_minutes 30, Some (Price (last data))),
               (DateTime (last data) + Timedelta_minutes 45, Some (Price (last data)))])"
proof -
  let ?n = "length data"
  let ?q = "Timedelta_minutes 15"
  let ?G = "\<lambda>k. (t0 + int k * ?q, Some (Price (data ! min k (?n - 1))))"
  from ne have pos: "0 < ?n" by simp
  then have last_i: "?n - 1 < ?n" by simp
  have last_eq: "last data = data ! (?n - 1)"
    using ne by (rule last_conv_nth)
  have last_at: "DateTime (last data) = t0 + int (?n - 1) * ?q"
    unfolding last_eq using ts last_i by (rule quarter_nth)
  have "[0 ..< ?n + 3] = [0 ..< ?n] @ [?n ..< ?n + 3]"
    by (rule upt_add_eq_append) simp
  also have "[?n ..< ?n + 3] = [?n, ?n + 1, ?n + 2]"
    by (rule upt_three)
  finally have split: "[0 ..< ?n + 3] = [0 ..< ?n] @ [?n, ?n + 1, ?n + 2]" .
  have head: "map ?G [0 ..< ?n] = map (\<lambda>r. (DateTime r, Some (Price r))) data"
  proof (rule nth_equalityI)
    show "length (map ?G [0 ..< ?n]) = length (map (\<lambda>r. (DateTime r, Some (Price r))) data)"
      by simp
    fix i
    assume "i < length (map ?G [0 ..< ?n])"
    then have i: "i < ?n" by simp
    then have "min i (?n - 1) = i" by simp
    with i quarter_nth [OF ts i]
    show "map ?G [0 ..< ?n] ! i = map (\<lambda>r. (DateTime r, Some (Price r))) data ! i"
      by simp
  qed
  have m0: "min ?n (?n - 1) = ?n - 1" and m1: "min (?n + 1) (?n - 1) = ?n - 1"
    and m2: "min (?n + 2) (?n - 1) = ?n - 1"
    by simp_all
  have int_n: "int ?n = int (?n - 1) + 1" using pos by (cases ?n) simp_all
  have tail: "map ?G [?n, ?n + 1, ?n + 2] =
      [(DateTime (last data) + Timedelta_minutes 15, Some (Price (last data))),
       (DateTime (last data) + Timedelta_minutes 30, Some (Price (last data))),
       (DateTime (last data) + Timedelta_minutes 45, Some (Price (last data)))]"
    unfolding last_at
    by (simp add: m0 m1 m2 last_eq int_n Timedelta_minutes_def algebra_simps)
  have bound': "in_bounds (t0 + int (?n - 1) * ?q + Timedelta_minutes 59)"
    using bound unfolding last_at .
  have "plot_price kind day area data = Inr (map ?G [0 ..< ?n + 3])"
    using asc ne all ts bound' by (rule quarter_plot_price)
  also have "map ?G [0 ..< ?n + 3] = map ?G [0 ..< ?n] @ map ?G [?n, ?n + 1, ?n + 2]"
    unfolding split by (rule map_append)
  finally show ?thesis unfolding head tail .
qed

theorem quarter_hour_series_extended_witness:
  "ascending_sort insertion_sort \<and>
   quarter_hour_df \<noteq> [] \<and> length quarter_hour_df = 96 \<and>
   selection ''2023-01-15'' ''NO3'' quarter_hour_df = quarter_hour_df \<and>
   map DateTime quarter_hour_df =
     map (\<lambda>k. 1673740800000000000 + int k * Timedelta_minutes 15) [0 ..< length quarter_hour_df] \<and>
   in_bounds (DateTime (last quarter_hour_df) + Timedelta_minutes 59) \<and>
   plot_price insertion_sort ''2023-01-15'' ''NO3'' quarter_hour_df =
     Inr (map (\<lambda>r. (DateTime r, Some (Price r))) quarter_hour_df @
          [(DateTime (last quarter_hour_df) + Timedelta_minutes 15, Some (Price (last quarter_hour_df))),
           (DateTime (last quarter_hour_df) + Timedelta_minutes 30, Some (Price (last quarter_hour_df))),
           (DateTime (last quarter_hour_df) + Timedelta_minutes 45, Some (Price (last quarter_hour_df)))])"
proof -
  have sel: "selection ''2023-01-15'' ''NO3'' quarter_hour_df = quarter_hour_df"
    using quarter_hour_df_match by (rule quarter_selection)
  have "last quarter_hour_df = quarter_hour_df ! (length quarter_hour_df - 1)"
    using quarter_hour_df_ne by (rule last_conv_nth)
  moreover have "DateTime (quarter_hour_df ! (length quarter_hour_df - 1)) =
      1673740800000000000 + int (length quarter_hour_df - 1) * Timedelta_minutes 15"
    using quarter_hour_df_times by (rule quarter_nth) (simp add: quarter_hour_df_length)
  ultimately have bound: "in_bounds (DateTime (last quarter_hour_df) + Timedelta_minutes 59)"
    using quarter_hour_df_bound by simp
  note run = quarter_hour_series_extended
    [OF ascending_insertion_sort quarter_hour_df_ne quarter_hour_df_match
        quarter_hour_df_times bound]
  show ?thesis
    using ascending_insertion_sort quarter_hour_df_ne quarter_hour_df_length sel
      quarter_hour_df_times bound run
    by (intro conjI)
qed

end
